theory Spec2Isabelle
  imports Main "HOL-Library.Multiset" "HOL-Library.Char_ord" "HOL-Library.List_Lexorder"
begin

section \<open>The audit ledger of the mining console\<close>

text \<open>
  The ledger lives in \<^verbatim>\<open>src/services/logger.ts\<close> (class \<^verbatim>\<open>LoggerService\<close>) and is shown
  by the audit view (\<^verbatim>\<open>AuditLogView\<close>, \<^verbatim>\<open>sortedAndFilteredLogs\<close>). The service keeps no
  state of its own: every method reads and writes one key of the browser's
  \<^verbatim>\<open>localStorage\<close>, and every append is announced by a DOM event. The browser is therefore
  part of the model: its storage, what it parses and serialises, the events it is given,
  and the exceptions it throws.
\<close>

subsection \<open>Values of the language\<close>

text \<open>
  \<^verbatim>\<open>metadata?: Record<string, any>\<close> admits any value. The fragment modelled here has the
  JSON values and the values that \<^verbatim>\<open>JSON.stringify\<close> treats differently: \<^verbatim>\<open>undefined\<close> and
  functions (left out of objects, \<^verbatim>\<open>null\<close> in arrays), the non-finite numbers
  (\<^verbatim>\<open>null\<close>), and big integers (a \<^verbatim>\<open>TypeError\<close>, as for a cyclic object). A finite number
  that is an integer is \<open>Finite\<close> of that integer (time stamps, counts); a finite number
  that is not an integer is \<open>Decimal s q\<close>, the number written s times 10 to the power q
  (0.98 is \<open>Decimal 98 (- 2)\<close>, 14.50 is \<open>Decimal 145 (- 1)\<close>). Strings are sequences of
  the characters U+0000 to U+00FF; an object is the list of its properties in
  enumeration order.
\<close>

datatype number = Finite int | Decimal int int | NaN | PosInfinity | NegInfinity

datatype jsval =
    VUndefined
  | VNull
  | VBool bool
  | VNum number
  | VStr string
  | VBigInt int
  | VFunction
  | VArr "jsval list"
  | VObj "(string \<times> jsval) list"

text \<open>What a JSON text denotes: the result of \<^verbatim>\<open>JSON.parse\<close> on it.\<close>

datatype json =
    JNull
  | JBool bool
  | JNum int
  | JDec int int
  | JStr string
  | JArr "json list"
  | JObj "(string \<times> json) list"

datatype exn = TypeError | SyntaxError | SecurityError | QuotaExceededError

text \<open>The value \<^verbatim>\<open>JSON.parse\<close> builds for a document.\<close>

fun of_json :: "json \<Rightarrow> jsval"
  and of_jsons :: "json list \<Rightarrow> jsval list"
  and of_members :: "(string \<times> json) list \<Rightarrow> (string \<times> jsval) list" where
  "of_json JNull = VNull"
| "of_json (JBool b) = VBool b"
| "of_json (JNum i) = VNum (Finite i)"
| "of_json (JDec s q) = VNum (Decimal s q)"
| "of_json (JStr s) = VStr s"
| "of_json (JArr js) = VArr (of_jsons js)"
| "of_json (JObj ms) = VObj (of_members ms)"
| "of_jsons [] = []"
| "of_jsons (j # js) = of_json j # of_jsons js"
| "of_members [] = []"
| "of_members (m # ms) = (fst m, of_json (snd m)) # of_members ms"

text \<open>
  \<^verbatim>\<open>JSON.stringify\<close>, up to the characters: the document that the produced text denotes.
  \<open>Inr None\<close> is the result \<^verbatim>\<open>undefined\<close> (nothing is produced for the value), \<open>Inl\<close> a
  thrown exception. An array element with no serialisation is written \<^verbatim>\<open>null\<close>, an object
  property with none is left out.
\<close>

fun SerializeJSONProperty :: "jsval \<Rightarrow> exn + json option"
  and SerializeJSONArray :: "jsval list \<Rightarrow> exn + json list"
  and SerializeJSONObject :: "(string \<times> jsval) list \<Rightarrow> exn + (string \<times> json) list" where
  "SerializeJSONProperty VUndefined = Inr None"
| "SerializeJSONProperty VFunction = Inr None"
| "SerializeJSONProperty VNull = Inr (Some JNull)"
| "SerializeJSONProperty (VBool b) = Inr (Some (JBool b))"
| "SerializeJSONProperty (VNum n) =
     Inr (Some (case n of Finite i \<Rightarrow> JNum i | Decimal s q \<Rightarrow> JDec s q | NaN \<Rightarrow> JNull
                | PosInfinity \<Rightarrow> JNull | NegInfinity \<Rightarrow> JNull))"
| "SerializeJSONProperty (VStr s) = Inr (Some (JStr s))"
| "SerializeJSONProperty (VBigInt i) = Inl TypeError"
| "SerializeJSONProperty (VArr vs) =
     (case SerializeJSONArray vs of Inl e \<Rightarrow> Inl e | Inr js \<Rightarrow> Inr (Some (JArr js)))"
| "SerializeJSONProperty (VObj ps) =
     (case SerializeJSONObject ps of Inl e \<Rightarrow> Inl e | Inr ms \<Rightarrow> Inr (Some (JObj ms)))"
| "SerializeJSONArray [] = Inr []"
| "SerializeJSONArray (v # vs) =
     (case SerializeJSONProperty v of
        Inl e \<Rightarrow> Inl e
      | Inr r \<Rightarrow>
          (case SerializeJSONArray vs of
             Inl e \<Rightarrow> Inl e
           | Inr js \<Rightarrow> Inr ((case r of None \<Rightarrow> JNull | Some j \<Rightarrow> j) # js)))"
| "SerializeJSONObject [] = Inr []"
| "SerializeJSONObject (p # ps) =
     (case SerializeJSONProperty (snd p) of
        Inl e \<Rightarrow> Inl e
      | Inr r \<Rightarrow>
          (case SerializeJSONObject ps of
             Inl e \<Rightarrow> Inl e
           | Inr ms \<Rightarrow> Inr ((case r of None \<Rightarrow> [] | Some j \<Rightarrow> [(fst p, j)]) @ ms)))"

subsection \<open>The browser: storage, events, console\<close>

text \<open>
  A string kept in \<^verbatim>\<open>localStorage\<close> is represented by the way the service reads it: the
  empty string (falsy, never parsed), a JSON text (by the document it denotes), or any
  other text (\<^verbatim>\<open>JSON.parse\<close> throws a \<^verbatim>\<open>SyntaxError\<close>).
\<close>

datatype stored = EmptyText | JsonText json | OtherText

datatype effect =
    SetItem string stored
  | RemoveItem string
  | DispatchEvent string jsval
  | ConsoleError string

text \<open>
  \<open>items\<close> is the content of \<^verbatim>\<open>localStorage\<close>; \<open>storage_denied\<close> says that the page may
  not use it (every access throws a \<^verbatim>\<open>SecurityError\<close>); \<open>effects\<close> lists what the page
  has done to the outside, oldest first.
\<close>

record world =
  items :: "string \<rightharpoonup> stored"
  storage_denied :: bool
  effects :: "effect list"

text \<open>
  What the platform supplies during one call of \<^verbatim>\<open>log\<close>: the text of
  \<^verbatim>\<open>Math.random().toString(36)\<close>, the value of \<^verbatim>\<open>Date.now()\<close>, and whether the storage
  refuses the write of that call (\<^verbatim>\<open>setItem\<close> throws a \<^verbatim>\<open>QuotaExceededError\<close>).
\<close>

record platform =
  random36 :: string
  now :: int
  quota_exceeded :: bool

definition emit :: "effect \<Rightarrow> world \<Rightarrow> world" where
  "emit x w = w\<lparr>effects := effects w @ [x]\<rparr>"

definition getItem :: "string \<Rightarrow> world \<Rightarrow> exn + stored option" where
  "getItem k w = (if storage_denied w then Inl SecurityError else Inr (items w k))"

definition setItem :: "platform \<Rightarrow> string \<Rightarrow> stored \<Rightarrow> world \<Rightarrow> (exn + unit) \<times> world" where
  "setItem p k t w =
     (if storage_denied w then (Inl SecurityError, w)
      else if quota_exceeded p then (Inl QuotaExceededError, w)
      else (Inr (), emit (SetItem k t) (w\<lparr>items := (items w)(k \<mapsto> t)\<rparr>)))"

definition removeItem :: "string \<Rightarrow> world \<Rightarrow> (exn + unit) \<times> world" where
  "removeItem k w =
     (if storage_denied w then (Inl SecurityError, w)
      else (Inr (), emit (RemoveItem k) (w\<lparr>items := (items w)(k := None)\<rparr>)))"

definition dispatchEvent :: "string \<Rightarrow> jsval \<Rightarrow> world \<Rightarrow> (exn + unit) \<times> world" where
  "dispatchEvent name detail w = (Inr (), emit (DispatchEvent name detail) w)"

definition console_error :: "string \<Rightarrow> world \<Rightarrow> world" where
  "console_error msg w = emit (ConsoleError msg) w"

definition JSON_parse :: "stored \<Rightarrow> exn + jsval" where
  "JSON_parse t = (case t of JsonText d \<Rightarrow> Inr (of_json d) | EmptyText \<Rightarrow> Inl SyntaxError
                   | OtherText \<Rightarrow> Inl SyntaxError)"

text \<open>
  \<^verbatim>\<open>JSON.stringify\<close> returns a JSON text, represented by its document, or \<^verbatim>\<open>undefined\<close>
  (\<open>None\<close>). \<open>item_of\<close> is the string that \<^verbatim>\<open>setItem\<close> is then given: for \<^verbatim>\<open>undefined\<close>
  the storage keeps the nine letters of that word, which are no JSON.
\<close>

definition JSON_stringify :: "jsval \<Rightarrow> exn + json option" where
  "JSON_stringify v = SerializeJSONProperty v"

definition item_of :: "json option \<Rightarrow> stored" where
  "item_of r = (case r of None \<Rightarrow> OtherText | Some d \<Rightarrow> JsonText d)"

text \<open>\<^verbatim>\<open>saved ? ... : ...\<close>: \<^verbatim>\<open>null\<close> (no item) and the empty string are falsy.\<close>

definition truthy_item :: "stored option \<Rightarrow> bool" where
  "truthy_item s = (case s of None \<Rightarrow> False | Some EmptyText \<Rightarrow> False | Some _ \<Rightarrow> True)"

text \<open>
  The spread \<^verbatim>\<open>...logs\<close>: the elements of an array, the characters of a string, and a
  \<^verbatim>\<open>TypeError\<close> for every other value (none of them is iterable).
\<close>

definition spread :: "jsval \<Rightarrow> exn + jsval list" where
  "spread v = (case v of VArr xs \<Rightarrow> Inr xs | VStr s \<Rightarrow> Inr (map (\<lambda>c. VStr [c]) s)
               | _ \<Rightarrow> Inl TypeError)"

subsection \<open>Entries\<close>

datatype LogCategory = SYSTEM | FINANCIAL | SECURITY | OPERATION | AI | MARKETPLACE

text \<open>The string value of each member of the enum.\<close>

fun category_text :: "LogCategory \<Rightarrow> string" where
  "category_text SYSTEM = ''SYSTEM''"
| "category_text FINANCIAL = ''FINANCIAL''"
| "category_text SECURITY = ''SECURITY''"
| "category_text OPERATION = ''OPERATION''"
| "category_text AI = ''AI''"
| "category_text MARKETPLACE = ''MARKETPLACE''"

text \<open>
  The interface \<^verbatim>\<open>AuditLog\<close>; the field \<^verbatim>\<open>id\<close> is \<open>id'\<close> here, and an omitted \<^verbatim>\<open>metadata\<close>
  is \<open>VUndefined\<close>.
\<close>

record AuditLog =
  id' :: string
  timestamp :: int
  category :: LogCategory
  action :: string
  metadata :: jsval

text \<open>The object that an entry is at run time.\<close>

definition entry_obj :: "AuditLog \<Rightarrow> jsval" where
  "entry_obj e =
     VObj [(''id'', VStr (id' e)),
           (''timestamp'', VNum (Finite (timestamp e))),
           (''category'', VStr (category_text (category e))),
           (''action'', VStr (action e)),
           (''metadata'', metadata e)]"

text \<open>\<^verbatim>\<open>toUpperCase\<close> on the characters a base-36 text has: digits, the point, a to z.\<close>

definition upper_char :: "char \<Rightarrow> char" where
  "upper_char c =
     (if 97 \<le> (of_char c :: nat) \<and> (of_char c :: nat) \<le> 122
      then char_of ((of_char c :: nat) - 32) else c)"

definition toUpperCase :: "string \<Rightarrow> string" where
  "toUpperCase s = map upper_char s"

definition substr :: "nat \<Rightarrow> nat \<Rightarrow> string \<Rightarrow> string" where
  "substr start len s = take len (drop start s)"

subsection \<open>LoggerService\<close>

definition STORAGE_KEY :: string where
  "STORAGE_KEY = ''cloudmine_audit_ledger''"

text \<open>
  \<^verbatim>\<open>getLogs\<close>: the body of the \<^verbatim>\<open>try\<close> first, then the method with its \<^verbatim>\<open>catch\<close>.
\<close>

definition getLogs_try :: "world \<Rightarrow> exn + jsval" where
  "getLogs_try w =
     (case getItem STORAGE_KEY w of
        Inl e \<Rightarrow> Inl e
      | Inr saved \<Rightarrow>
          (if truthy_item saved
           then (case saved of Some t \<Rightarrow> JSON_parse t | None \<Rightarrow> Inr (VArr []))
           else Inr (VArr [])))"

definition getLogs :: "world \<Rightarrow> (exn + jsval) \<times> world" where
  "getLogs w =
     (case getLogs_try w of
        Inr v \<Rightarrow> (Inr v, w)
      | Inl e \<Rightarrow> (Inr (VArr []), console_error ''Failed to load audit ledger:'' w))"

definition newLog :: "platform \<Rightarrow> LogCategory \<Rightarrow> string \<Rightarrow> jsval \<Rightarrow> AuditLog" where
  "newLog p c a m =
     \<lparr>id' = ''LOG-'' @ toUpperCase (substr 2 9 (random36 p)),
      timestamp = now p,
      category = c,
      action = a,
      metadata = m\<rparr>"

text \<open>The body of the \<^verbatim>\<open>try\<close> of \<^verbatim>\<open>log\<close>, for the entry just built.\<close>

definition log_try :: "platform \<Rightarrow> AuditLog \<Rightarrow> world \<Rightarrow> (exn + unit) \<times> world" where
  "log_try p e w =
     (case getLogs w of
        (Inl x, w1) \<Rightarrow> (Inl x, w1)
      | (Inr logs, w1) \<Rightarrow>
          (case spread logs of
             Inl x \<Rightarrow> (Inl x, w1)
           | Inr old \<Rightarrow>
               (let updatedLogs = take 500 (entry_obj e # old) in
                case JSON_stringify (VArr updatedLogs) of
                  Inl x \<Rightarrow> (Inl x, w1)
                | Inr t \<Rightarrow>
                    (case setItem p STORAGE_KEY (item_of t) w1 of
                       (Inl x, w2) \<Rightarrow> (Inl x, w2)
                     | (Inr u, w2) \<Rightarrow> dispatchEvent ''audit-log-updated'' (entry_obj e) w2))))"

definition log :: "platform \<Rightarrow> LogCategory \<Rightarrow> string \<Rightarrow> jsval \<Rightarrow> world \<Rightarrow> (exn + unit) \<times> world" where
  "log p c a m w =
     (case log_try p (newLog p c a m) w of
        (Inr u, w') \<Rightarrow> (Inr (), w')
      | (Inl x, w') \<Rightarrow> (Inr (), console_error ''Failed to save audit log:'' w'))"

definition clearLogs :: "platform \<Rightarrow> world \<Rightarrow> (exn + unit) \<times> world" where
  "clearLogs p w =
     (case log p SECURITY ''Manual ledger purge initiated'' VUndefined w of
        (Inl x, w1) \<Rightarrow> (Inl x, w1)
      | (Inr u, w1) \<Rightarrow> removeItem STORAGE_KEY w1)"

subsection \<open>Strings and JSON text\<close>

text \<open>
  \<^verbatim>\<open>toLowerCase\<close> on the characters U+0000 to U+00FF: the letters A to Z, and the
  letters U+00C0 to U+00DE except the multiplication sign U+00D7, move up by 32.
\<close>

definition lower_char :: "char \<Rightarrow> char" where
  "lower_char c =
     (let n = (of_char c :: nat) in
      if (65 \<le> n \<and> n \<le> 90) \<or> (192 \<le> n \<and> n \<le> 222 \<and> n \<noteq> 215)
      then char_of (n + 32) else c)"

definition toLowerCase :: "string \<Rightarrow> string" where
  "toLowerCase s = map lower_char s"

text \<open>\<^verbatim>\<open>s.includes(t)\<close>: \<open>t\<close> occurs in \<open>s\<close> as a contiguous run of characters.\<close>

fun String_includes :: "string \<Rightarrow> string \<Rightarrow> bool" where
  "String_includes [] t = (t = [])"
| "String_includes (c # cs) t = (take (length t) (c # cs) = t \<or> String_includes cs t)"

text \<open>The decimal digits of a natural number.\<close>

fun digits :: "nat \<Rightarrow> string" where
  "digits n =
     (if n < 10 then [''0123456789'' ! n]
      else digits (n div 10) @ [''0123456789'' ! (n mod 10)])"

declare digits.simps [simp del]

text \<open>
  \<^verbatim>\<open>Number::toString\<close>, the text that the platform writes for a finite number, is not
  computed here: the view is modelled for every such function, which is a parameter
  \<open>nt\<close> of all that follows.
\<close>

type_synonym number_text = "number \<Rightarrow> string"

text \<open>
  \<^verbatim>\<open>QuoteJSONString\<close>: the quote and the backslash are escaped by a backslash, the
  control characters are written \<^verbatim>\<open>\b \t \n \f \r\<close> or as four hexadecimal digits.
\<close>

definition escape :: "char \<Rightarrow> string" where
  "escape c =
     (let n = (of_char c :: nat) in
      if n = 34 then [CHR 0x5C, CHR 0x22]
      else if n = 92 then [CHR 0x5C, CHR 0x5C]
      else if n = 8 then [CHR 0x5C, CHR ''b'']
      else if n = 9 then [CHR 0x5C, CHR ''t'']
      else if n = 10 then [CHR 0x5C, CHR ''n'']
      else if n = 12 then [CHR 0x5C, CHR ''f'']
      else if n = 13 then [CHR 0x5C, CHR ''r'']
      else if n < 32
        then [CHR 0x5C, CHR ''u'', CHR ''0'', CHR ''0'',
              ''0123456789abcdef'' ! (n div 16), ''0123456789abcdef'' ! (n mod 16)]
      else [c])"

definition QuoteJSONString :: "string \<Rightarrow> string" where
  "QuoteJSONString s = CHR 0x22 # concat (map escape s) @ [CHR 0x22]"

text \<open>
  The characters of the text that \<^verbatim>\<open>JSON.stringify\<close> produces for a document, the numbers
  written by \<open>nt\<close>.
\<close>

fun JSON_text :: "number_text \<Rightarrow> json \<Rightarrow> string"
  and JSON_elements :: "number_text \<Rightarrow> json list \<Rightarrow> string"
  and JSON_members :: "number_text \<Rightarrow> (string \<times> json) list \<Rightarrow> string" where
  "JSON_text nt JNull = ''null''"
| "JSON_text nt (JBool b) = (if b then ''true'' else ''false'')"
| "JSON_text nt (JNum i) = nt (Finite i)"
| "JSON_text nt (JDec s q) = nt (Decimal s q)"
| "JSON_text nt (JStr s) = QuoteJSONString s"
| "JSON_text nt (JArr js) = ''['' @ JSON_elements nt js @ '']''"
| "JSON_text nt (JObj ms) = ''{'' @ JSON_members nt ms @ ''}''"
| "JSON_elements nt [] = []"
| "JSON_elements nt [j] = JSON_text nt j"
| "JSON_elements nt (j # k # js) = JSON_text nt j @ '','' @ JSON_elements nt (k # js)"
| "JSON_members nt [] = []"
| "JSON_members nt [m] = QuoteJSONString (fst m) @ '':'' @ JSON_text nt (snd m)"
| "JSON_members nt (m # n # ms) =
     QuoteJSONString (fst m) @ '':'' @ JSON_text nt (snd m) @ '','' @ JSON_members nt (n # ms)"

text \<open>The values that count as true in a condition.\<close>

fun truthy :: "jsval \<Rightarrow> bool" where
  "truthy VUndefined = False"
| "truthy VNull = False"
| "truthy (VBool b) = b"
| "truthy (VNum n) = (case n of Finite i \<Rightarrow> i \<noteq> 0 | Decimal s q \<Rightarrow> s \<noteq> 0 | NaN \<Rightarrow> False
                      | PosInfinity \<Rightarrow> True | NegInfinity \<Rightarrow> True)"
| "truthy (VStr s) = (s \<noteq> [])"
| "truthy (VBigInt i) = (i \<noteq> 0)"
| "truthy VFunction = True"
| "truthy (VArr vs) = True"
| "truthy (VObj ps) = True"

subsection \<open>The audit view: \<^verbatim>\<open>sortedAndFilteredLogs\<close>\<close>

text \<open>
  The state of the view that the computation reads: \<^verbatim>\<open>filter\<close> is a category or
  \<^verbatim>\<open>'ALL'\<close>, \<^verbatim>\<open>sortConfig\<close> a key and a direction.
\<close>

datatype category_filter = ALL' | Only LogCategory

datatype SortKey = Timestamp | Category | Action

datatype SortDirection = Asc | Desc

record SortConfig =
  key :: SortKey
  direction :: SortDirection

text \<open>
  \<^verbatim>\<open>matchesText\<close>: the three operands of \<^verbatim>\<open>||\<close> from left to right; the third is only
  evaluated when the first two are false, and calls \<^verbatim>\<open>toLowerCase\<close> on what
  \<^verbatim>\<open>JSON.stringify\<close> returns (a \<^verbatim>\<open>TypeError\<close> when that is \<^verbatim>\<open>undefined\<close>).
\<close>

definition matchesText :: "number_text \<Rightarrow> string \<Rightarrow> AuditLog \<Rightarrow> exn + bool" where
  "matchesText nt searchStr entry =
     (if String_includes (toLowerCase (action entry)) searchStr then Inr True
      else if String_includes (toLowerCase (category_text (category entry))) searchStr then Inr True
      else if \<not> truthy (metadata entry) then Inr False
      else (case JSON_stringify (metadata entry) of
              Inl x \<Rightarrow> Inl x
            | Inr None \<Rightarrow> Inl TypeError
            | Inr (Some d) \<Rightarrow> Inr (String_includes (toLowerCase (JSON_text nt d)) searchStr)))"

definition filter_callback ::
    "number_text \<Rightarrow> category_filter \<Rightarrow> string \<Rightarrow> AuditLog \<Rightarrow> exn + bool" where
  "filter_callback nt flt searchQuery entry =
     (let matchesCategory = (flt = ALL' \<or> flt = Only (category entry));
          searchStr = toLowerCase searchQuery
      in if searchQuery = [] then Inr matchesCategory
         else (case matchesText nt searchStr entry of
                 Inl x \<Rightarrow> Inl x
               | Inr t \<Rightarrow> Inr (matchesCategory \<and> t)))"

text \<open>\<^verbatim>\<open>Array.prototype.filter\<close> with a callback that may throw.\<close>

fun Array_filter :: "('a \<Rightarrow> exn + bool) \<Rightarrow> 'a list \<Rightarrow> exn + 'a list" where
  "Array_filter f [] = Inr []"
| "Array_filter f (x # xs) =
     (case f x of
        Inl e \<Rightarrow> Inl e
      | Inr b \<Rightarrow>
          (case Array_filter f xs of
             Inl e \<Rightarrow> Inl e
           | Inr ys \<Rightarrow> Inr (if b then x # ys else ys)))"

text \<open>
  The comparator: \<^verbatim>\<open>a[key]\<close> and \<^verbatim>\<open>b[key]\<close> are two numbers or two strings, the strings
  in lower case; strings compare character by character.
\<close>

definition order3 :: "SortDirection \<Rightarrow> 'a::linorder \<Rightarrow> 'a \<Rightarrow> int" where
  "order3 d valA valB =
     (if valA < valB then (if d = Asc then - 1 else 1)
      else if valB < valA then (if d = Asc then 1 else - 1)
      else 0)"

definition compareFn :: "SortConfig \<Rightarrow> AuditLog \<Rightarrow> AuditLog \<Rightarrow> int" where
  "compareFn cfg a b =
     (case key cfg of
        Timestamp \<Rightarrow> order3 (direction cfg) (timestamp a) (timestamp b)
      | Category \<Rightarrow>
          order3 (direction cfg) (toLowerCase (category_text (category a)))
            (toLowerCase (category_text (category b)))
      | Action \<Rightarrow> order3 (direction cfg) (toLowerCase (action a)) (toLowerCase (action b)))"

text \<open>
  \<^verbatim>\<open>Array.prototype.sort\<close> is stable; for a comparator that is a total preorder its
  result is the one stable arrangement, which insertion from the right computes.
\<close>

fun insert_sorted :: "('a \<Rightarrow> 'a \<Rightarrow> int) \<Rightarrow> 'a \<Rightarrow> 'a list \<Rightarrow> 'a list" where
  "insert_sorted cmp x [] = [x]"
| "insert_sorted cmp x (y # ys) =
     (if cmp x y \<le> 0 then x # y # ys else y # insert_sorted cmp x ys)"

definition Array_sort :: "('a \<Rightarrow> 'a \<Rightarrow> int) \<Rightarrow> 'a list \<Rightarrow> 'a list" where
  "Array_sort cmp xs = foldr (insert_sorted cmp) xs []"

definition sortedAndFilteredLogs ::
    "number_text \<Rightarrow> AuditLog list \<Rightarrow> category_filter \<Rightarrow> string \<Rightarrow> SortConfig
      \<Rightarrow> exn + AuditLog list" where
  "sortedAndFilteredLogs nt logs flt searchQuery sortConfig =
     (case Array_filter (filter_callback nt flt searchQuery) logs of
        Inl e \<Rightarrow> Inl e
      | Inr filtered \<Rightarrow> Inr (Array_sort (compareFn sortConfig) filtered))"

text \<open>
  The selection as the specification words it: the category matches the filter, and for
  a non-empty query the action text or the serialised metadata contains the query,
  letter case ignored.
\<close>

definition metadata_contains :: "number_text \<Rightarrow> string \<Rightarrow> AuditLog \<Rightarrow> bool" where
  "metadata_contains nt q entry =
     (case JSON_stringify (metadata entry) of
        Inr (Some d) \<Rightarrow> String_includes (toLowerCase (JSON_text nt d)) (toLowerCase q)
      | _ \<Rightarrow> False)"

definition spec_selected ::
    "number_text \<Rightarrow> category_filter \<Rightarrow> string \<Rightarrow> AuditLog \<Rightarrow> bool" where
  "spec_selected nt flt q entry =
     ((flt = ALL' \<or> flt = Only (category entry))
      \<and> (q = [] \<or> String_includes (toLowerCase (action entry)) (toLowerCase q)
           \<or> metadata_contains nt q entry))"

text \<open>
  The selection the view computes: the name of the category is searched as well, and
  the metadata only when it is present (truthy).
\<close>

definition selected :: "number_text \<Rightarrow> category_filter \<Rightarrow> string \<Rightarrow> AuditLog \<Rightarrow> bool" where
  "selected nt flt q entry =
     ((flt = ALL' \<or> flt = Only (category entry))
      \<and> (q = [] \<or> String_includes (toLowerCase (action entry)) (toLowerCase q)
           \<or> String_includes (toLowerCase (category_text (category entry))) (toLowerCase q)
           \<or> (truthy (metadata entry) \<and> metadata_contains nt q entry)))"

text \<open>
  The metadata can be searched: it is absent, or \<^verbatim>\<open>JSON.stringify\<close> returns a text for it
  (as for everything that \<^verbatim>\<open>getLogs\<close> has parsed).
\<close>

definition searchable :: "jsval \<Rightarrow> bool" where
  "searchable v =
     (case JSON_stringify v of
        Inr (Some d) \<Rightarrow> True
      | Inr None \<Rightarrow> \<not> truthy v
      | Inl e \<Rightarrow> \<not> truthy v)"

text \<open>
  A list is in the order of a sort configuration: its keys ascend or descend, strings
  compared in lower case.
\<close>

definition ordered :: "SortDirection \<Rightarrow> 'a::linorder list \<Rightarrow> bool" where
  "ordered d ks = (case d of Asc \<Rightarrow> sorted ks | Desc \<Rightarrow> sorted (rev ks))"

definition in_order :: "SortConfig \<Rightarrow> AuditLog list \<Rightarrow> bool" where
  "in_order cfg ys =
     (case key cfg of
        Timestamp \<Rightarrow> ordered (direction cfg) (map timestamp ys)
      | Category \<Rightarrow>
          ordered (direction cfg) (map (\<lambda>e. toLowerCase (category_text (category e))) ys)
      | Action \<Rightarrow> ordered (direction cfg) (map (\<lambda>e. toLowerCase (action e)) ys))"

subsection \<open>Sequences of appends, and what a later session reads\<close>

text \<open>
  One call of \<^verbatim>\<open>log\<close> with what the platform supplied during it, the entry the call
  builds, and the state after a sequence of calls, in call order.
\<close>

type_synonym call = "platform \<times> LogCategory \<times> string \<times> jsval"

definition entry_of :: "call \<Rightarrow> AuditLog" where
  "entry_of = (\<lambda>(p, c, a, m). newLog p c a m)"

definition log_call :: "world \<Rightarrow> call \<Rightarrow> world" where
  "log_call w = (\<lambda>(p, c, a, m). snd (log p c a m w))"

definition log_calls :: "world \<Rightarrow> call list \<Rightarrow> world" where
  "log_calls w cs = foldl log_call w cs"

text \<open>
  The document written for an entry: the four fields, and the metadata when it has a
  serialisation. \<open>reloaded\<close> is the object that \<^verbatim>\<open>getLogs\<close> gives back for it.
\<close>

definition persisted :: "AuditLog \<Rightarrow> json" where
  "persisted e =
     JObj ([(''id'', JStr (id' e)),
            (''timestamp'', JNum (timestamp e)),
            (''category'', JStr (category_text (category e))),
            (''action'', JStr (action e))]
           @ (case SerializeJSONProperty (metadata e) of
                Inr (Some d) \<Rightarrow> [(''metadata'', d)]
              | _ \<Rightarrow> []))"

definition reloaded :: "AuditLog \<Rightarrow> jsval" where
  "reloaded e = of_json (persisted e)"

text \<open>The metadata can be written: the serialiser does not throw on it.\<close>

definition serialisable :: "jsval \<Rightarrow> bool" where
  "serialisable v = (case SerializeJSONProperty v of Inl e \<Rightarrow> False | Inr r \<Rightarrow> True)"

text \<open>The value is a JSON value: serialising and parsing give it back.\<close>

definition json_value :: "jsval \<Rightarrow> bool" where
  "json_value v = (case SerializeJSONProperty v of Inr (Some d) \<Rightarrow> of_json d = v | _ \<Rightarrow> False)"

text \<open>A call whose write nothing refuses.\<close>

definition accepted :: "call \<Rightarrow> bool" where
  "accepted = (\<lambda>(p, c, a, m). \<not> quota_exceeded p \<and> serialisable m)"

text \<open>The \<^verbatim>\<open>try\<close> block of the call ran to its end: the append took effect.\<close>

definition took_effect :: "world \<Rightarrow> call \<Rightarrow> bool" where
  "took_effect w = (\<lambda>(p, c, a, m). fst (log_try p (newLog p c a m) w) = Inr ())"

text \<open>The entries that \<^verbatim>\<open>getLogs\<close> returns when it returns an array, and their number.\<close>

definition ledger :: "world \<Rightarrow> jsval list" where
  "ledger w = (case fst (getLogs w) of Inr (VArr xs) \<Rightarrow> xs | _ \<Rightarrow> [])"

definition store_count :: "world \<Rightarrow> nat" where
  "store_count w = length (ledger w)"

text \<open>
  Reading a property: \<^verbatim>\<open>undefined\<close> when the object has none of that name. The five
  fields of an entry, as any reader of the entry sees them.
\<close>

definition get_prop :: "string \<Rightarrow> jsval \<Rightarrow> jsval" where
  "get_prop k v =
     (case v of
        VObj ps \<Rightarrow> (case map_of ps k of Some x \<Rightarrow> x | None \<Rightarrow> VUndefined)
      | _ \<Rightarrow> VUndefined)"

definition entry_fields :: "jsval \<Rightarrow> jsval list" where
  "entry_fields v = map (\<lambda>k. get_prop k v) [''id'', ''timestamp'', ''category'', ''action'', ''metadata'']"

text \<open>The effects of one kind in a trace.\<close>

definition dispatched :: "effect list \<Rightarrow> jsval list" where
  "dispatched xs = concat (map (\<lambda>x. case x of DispatchEvent n d \<Rightarrow> [d] | _ \<Rightarrow> []) xs)"

subsection \<open>Auxiliary notions for the proofs\<close>

text \<open>
  The entries that \<^verbatim>\<open>log\<close> finds (\<^verbatim>\<open>[...logs]\<close>), the state after the write of a list of
  documents, and the fact that the storage is usable and holds exactly a given list.
\<close>

definition old_entries :: "world \<Rightarrow> exn + jsval list" where
  "old_entries w = (case fst (getLogs w) of Inl x \<Rightarrow> Inl x | Inr logs \<Rightarrow> spread logs)"

definition stored_after :: "json list \<Rightarrow> world \<Rightarrow> world" where
  "stored_after js w =
     emit (SetItem STORAGE_KEY (JsonText (JArr js)))
       (w\<lparr>items := (items w)(STORAGE_KEY \<mapsto> JsonText (JArr js))\<rparr>)"

definition holds :: "world \<Rightarrow> json list \<Rightarrow> bool" where
  "holds w js =
     (\<not> storage_denied w \<and>
      (if js = [] then items w STORAGE_KEY = None \<or> items w STORAGE_KEY = Some (JsonText (JArr []))
       else items w STORAGE_KEY = Some (JsonText (JArr js))))"

subsection \<open>Concrete states and calls\<close>

text \<open>
  A new browser profile, and a platform that accepts the write, or refuses it as a full
  storage does.
\<close>

definition fresh :: world where
  "fresh = \<lparr>items = Map.empty, storage_denied = False, effects = []\<rparr>"

definition accepting :: "string \<Rightarrow> int \<Rightarrow> platform" where
  "accepting r t = \<lparr>random36 = r, now = t, quota_exceeded = False\<rparr>"

definition refusing :: "string \<Rightarrow> int \<Rightarrow> platform" where
  "refusing r t = \<lparr>random36 = r, now = t, quota_exceeded = True\<rparr>"

text \<open>A profile whose ledger key holds a given string.\<close>

definition holding :: "stored \<Rightarrow> world" where
  "holding t = \<lparr>items = [STORAGE_KEY \<mapsto> t], storage_denied = False, effects = []\<rparr>"

text \<open>
  501 calls in a row with the actions \<^verbatim>\<open>evt-0\<close> to \<^verbatim>\<open>evt-500\<close>, all refused by the storage
  or all accepted.
\<close>

definition burst :: "bool \<Rightarrow> call list" where
  "burst refused =
     map (\<lambda>i. (\<lparr>random36 = ''0.4fzyo82mvyr'', now = 1700000000000 + int i,
                  quota_exceeded = refused\<rparr>,
               SYSTEM, ''evt-'' @ digits i, VUndefined))
       [0..<501]"

text \<open>Two entries as the view holds them.\<close>

definition shard :: AuditLog where
  "shard =
     \<lparr>id' = ''LOG-7K2M9QX1A'', timestamp = 1700000000000, category = SYSTEM,
      action = ''Shard migration initiated'', metadata = VUndefined\<rparr>"

definition payout :: AuditLog where
  "payout =
     \<lparr>id' = ''LOG-B3D8ZT0PW'', timestamp = 1700000003000, category = FINANCIAL,
      action = ''Bot performance payout calculated'',
      metadata =
        VObj [(''botId'', VStr ''HyperNode-Prime''), (''amount'', VNum (Decimal 145 (- 1)))]\<rparr>"

section \<open>Properties of the service\<close>

subsection \<open>Serialising and parsing\<close>

lemma of_jsons_map: "of_jsons js = map of_json js"
  by (induction js) simp_all

lemma serialize_of_json:
  "SerializeJSONProperty (of_json j) = Inr (Some j)"
  "SerializeJSONArray (of_jsons js) = Inr js"
  "SerializeJSONObject (of_members ms) = Inr ms"
  by (induction j and js and ms rule: of_json_of_jsons_of_members.induct) simp_all

lemma serialize_take:
  "SerializeJSONArray vs = Inr js \<Longrightarrow> SerializeJSONArray (take n vs) = Inr (take n js)"
proof (induction vs arbitrary: n js)
  case Nil
  then show ?case by simp
next
  case (Cons v vs)
  show ?case
  proof (cases n)
    case 0
    then show ?thesis by simp
  next
    case (Suc k)
    with Cons show ?thesis
      by (auto split: sum.splits option.splits)
  qed
qed

lemma serialize_entry:
  "serialisable (metadata e) \<Longrightarrow> SerializeJSONProperty (entry_obj e) = Inr (Some (persisted e))"
  by (auto simp: serialisable_def entry_obj_def persisted_def split: sum.splits option.splits)

subsection \<open>Reading the ledger\<close>

lemma getLogs_absent:
  "\<not> storage_denied w \<Longrightarrow> items w STORAGE_KEY = None \<Longrightarrow> getLogs w = (Inr (VArr []), w)"
  by (simp add: getLogs_def getLogs_try_def getItem_def truthy_item_def)

lemma getLogs_json:
  "\<not> storage_denied w \<Longrightarrow> items w STORAGE_KEY = Some (JsonText d) \<Longrightarrow>
   getLogs w = (Inr (of_json d), w)"
  by (simp add: getLogs_def getLogs_try_def getItem_def truthy_item_def JSON_parse_def)

lemma getLogs_world:
  "storage_denied (snd (getLogs w)) = storage_denied w"
  "items (snd (getLogs w)) = items w"
  by (simp_all add: getLogs_def console_error_def emit_def split: sum.splits)

lemma getLogs_value: "\<exists>v. fst (getLogs w) = Inr v"
  by (simp add: getLogs_def split: sum.splits)

lemma holds_getLogs: "holds w js \<Longrightarrow> getLogs w = (Inr (VArr (of_jsons js)), w)"
  by (auto simp: holds_def getLogs_absent getLogs_json split: if_splits)

subsection \<open>One append\<close>

text \<open>
  The \<^verbatim>\<open>try\<close> block of \<^verbatim>\<open>log\<close> has two outcomes. Either the old entries could be spread, the
  new list serialised and the write accepted: then the list is stored and the event
  dispatched, in this order. Or an exception left the block: then nothing was stored and
  nothing dispatched.
\<close>

lemma log_try_cases:
  obtains (kept) old js where
      "\<not> storage_denied w" "\<not> quota_exceeded p" "old_entries w = Inr old"
      "SerializeJSONArray (take 500 (entry_obj e # old)) = Inr js"
      "log_try p e w =
         (Inr (), emit (DispatchEvent ''audit-log-updated'' (entry_obj e))
                    (stored_after js (snd (getLogs w))))"
  | (dropped) x where "log_try p e w = (Inl x, snd (getLogs w))"
proof -
  obtain v w1 where g: "getLogs w = (Inr v, w1)"
    using getLogs_value [of w] by (cases "getLogs w") auto
  have d: "storage_denied w1 = storage_denied w"
    using getLogs_world(1) [of w] g by simp
  show thesis
  proof (cases "spread v")
    case (Inl x)
    with g have "log_try p e w = (Inl x, snd (getLogs w))"
      by (simp add: log_try_def)
    then show thesis by (rule dropped)
  next
    case (Inr old)
    show thesis
    proof (cases "SerializeJSONArray (take 500 (entry_obj e # old))")
      case (Inl x)
      with g Inr have "log_try p e w = (Inl x, snd (getLogs w))"
        by (simp add: log_try_def JSON_stringify_def Let_def del: take_Suc_Cons)
      then show thesis by (rule dropped)
    next
      case js: (Inr js)
      show thesis
      proof (cases "storage_denied w \<or> quota_exceeded p")
        case True
        with g Inr js d obtain x where "log_try p e w = (Inl x, snd (getLogs w))"
          by (auto simp: log_try_def JSON_stringify_def Let_def setItem_def item_of_def
              simp del: take_Suc_Cons)
        then show thesis by (rule dropped)
      next
        case False
        with g Inr js d have
          "log_try p e w =
             (Inr (), emit (DispatchEvent ''audit-log-updated'' (entry_obj e))
                    (stored_after js (snd (getLogs w))))"
          by (simp add: log_try_def JSON_stringify_def Let_def setItem_def item_of_def
              dispatchEvent_def stored_after_def del: take_Suc_Cons)
        moreover have "old_entries w = Inr old"
          using g Inr by (simp add: old_entries_def)
        ultimately show thesis
          using False js by (intro kept [of old js]) simp_all
      qed
    qed
  qed
qed

lemma log_took_effect:
  "log_try p (newLog p c a m) w = (Inr (), w') \<Longrightarrow> log p c a m w = (Inr (), w')"
  by (simp add: log_def)

lemma log_dropped:
  "log_try p (newLog p c a m) w = (Inl x, w') \<Longrightarrow>
   log p c a m w = (Inr (), console_error ''Failed to save audit log:'' w')"
  by (simp add: log_def)

lemma log_returns: "fst (log p c a m w) = Inr ()"
  by (simp add: log_def split: prod.split sum.split)

subsection \<open>Sequences of accepted appends\<close>


lemma log_try_on_array:
  assumes "holds w js" "\<not> quota_exceeded p" "serialisable (metadata e)"
  shows "log_try p e w =
    (Inr (), emit (DispatchEvent ''audit-log-updated'' (entry_obj e))
               (stored_after (take 500 (persisted e # js)) w))"
proof -
  have "SerializeJSONArray (entry_obj e # of_jsons js) = Inr (persisted e # js)"
    using assms(3) by (simp add: serialize_entry serialize_of_json)
  then have "SerializeJSONArray (take 500 (entry_obj e # of_jsons js)) = Inr (take 500 (persisted e # js))"
    by (rule serialize_take)
  moreover have "\<not> storage_denied w"
    using assms(1) by (simp add: holds_def)
  ultimately show ?thesis
    using assms(2) holds_getLogs [OF assms(1)]
    by (simp add: log_try_def spread_def JSON_stringify_def item_of_def setItem_def
        dispatchEvent_def stored_after_def Let_def del: take_Suc_Cons)
qed

lemma log_call_accepted:
  assumes "holds w js" "accepted c"
  shows "holds (log_call w c) (take 500 (persisted (entry_of c) # js))"
proof -
  obtain p k a m where c: "c = (p, k, a, m)" by (cases c)
  let ?e = "newLog p k a m"
  have "log_try p ?e w =
    (Inr (), emit (DispatchEvent ''audit-log-updated'' (entry_obj ?e))
               (stored_after (take 500 (persisted ?e # js)) w))"
    using assms by (intro log_try_on_array) (simp_all add: c accepted_def newLog_def)
  then have "log_call w c = emit (DispatchEvent ''audit-log-updated'' (entry_obj ?e))
               (stored_after (take 500 (persisted ?e # js)) w)"
    by (simp add: log_call_def c log_took_effect)
  then show ?thesis
    using assms(1) by (simp add: stored_after_def holds_def emit_def entry_of_def c)
qed

text \<open>An accepted call on a usable storage that holds a list of documents takes effect.\<close>

lemma accepted_took_effect:
  assumes "holds w js" "accepted c"
  shows "took_effect w c"
proof -
  obtain p k a m where c: "c = (p, k, a, m)" by (cases c)
  have "fst (log_try p (newLog p k a m) w) = Inr ()"
    using assms by (subst log_try_on_array [of w js]) (simp_all add: c accepted_def newLog_def)
  then show ?thesis
    by (simp add: took_effect_def c)
qed

lemma take_cons_take: "0 < n \<Longrightarrow> take n (x # take n xs) = take n (x # xs)"
  by (cases n) (simp_all add: min_def)

lemma log_calls_snoc: "log_calls w (cs @ [c]) = log_call (log_calls w cs) c"
  by (simp add: log_calls_def)

lemma log_calls_holds:
  assumes "holds w []" "list_all accepted cs"
  shows "holds (log_calls w cs) (take 500 (rev (map (\<lambda>c. persisted (entry_of c)) cs)))"
  using assms(2)
proof (induction cs rule: rev_induct)
  case Nil
  show ?case using assms(1) by (simp add: log_calls_def)
next
  case (snoc c cs)
  then have "holds (log_calls w cs) (take 500 (rev (map (\<lambda>c. persisted (entry_of c)) cs)))"
    and "accepted c"
    by simp_all
  then have "holds (log_call (log_calls w cs) c)
      (take 500 (persisted (entry_of c) # take 500 (rev (map (\<lambda>c. persisted (entry_of c)) cs))))"
    by (rule log_call_accepted)
  then show ?case
    by (simp add: log_calls_snoc take_cons_take del: take_Cons_numeral)
qed

lemma log_calls_reads:
  assumes "\<not> storage_denied w" "items w STORAGE_KEY = None" "list_all accepted cs"
  shows "fst (getLogs (log_calls w cs)) = Inr (VArr (map (\<lambda>c. reloaded (entry_of c)) (take 500 (rev cs))))"
proof -
  have "holds w []" using assms(1,2) by (simp add: holds_def)
  then have "holds (log_calls w cs) (take 500 (rev (map (\<lambda>c. persisted (entry_of c)) cs)))"
    using assms(3) by (rule log_calls_holds)
  then have "fst (getLogs (log_calls w cs)) =
      Inr (VArr (of_jsons (take 500 (rev (map (\<lambda>c. persisted (entry_of c)) cs)))))"
    by (simp add: holds_getLogs)
  then show ?thesis
    by (simp add: of_jsons_map take_map rev_map reloaded_def)
qed

lemma serialize_entry_result:
  "SerializeJSONProperty (entry_obj e) = Inr r \<Longrightarrow> r = Some (persisted e)"
  by (auto simp: entry_obj_def persisted_def split: sum.splits option.splits)

lemma serialize_new_head:
  assumes "SerializeJSONArray (take 500 (entry_obj e # old)) = Inr js"
  shows "\<exists>rest. js = persisted e # rest"
proof -
  have "take 500 (entry_obj e # old) = entry_obj e # take 499 old"
    by simp
  with assms show ?thesis
    by (auto split: sum.splits dest: serialize_entry_result)
qed

lemma log_call_reads_new:
  assumes "took_effect w c"
  shows "\<exists>rest. fst (getLogs (log_call w c)) = Inr (VArr (reloaded (entry_of c) # rest))"
proof -
  obtain p k a m where c: "c = (p, k, a, m)" by (cases c)
  let ?e = "newLog p k a m"
  show ?thesis
  proof (cases p ?e w rule: log_try_cases)
    case (kept old js)
    obtain rest where js: "js = persisted ?e # rest"
      using serialize_new_head [OF kept(4)] by blast
    have a: "log_call w c = emit (DispatchEvent ''audit-log-updated'' (entry_obj ?e))
                    (stored_after js (snd (getLogs w)))"
      using kept(5) by (simp add: log_call_def c log_took_effect)
    have "holds (log_call w c) js"
      using kept(1) by (simp add: a js holds_def emit_def stored_after_def getLogs_world)
    then have "fst (getLogs (log_call w c)) = Inr (VArr (of_jsons js))"
      by (simp add: holds_getLogs)
    then show ?thesis
      by (simp add: js reloaded_def entry_of_def c)
  next
    case (dropped x)
    with assms show ?thesis
      by (simp add: took_effect_def c)
  qed
qed


lemma serialize_length: "SerializeJSONArray vs = Inr js \<Longrightarrow> length js = length vs"
  by (induction vs arbitrary: js) (auto split: sum.splits)

subsection \<open>What the ledger depends on\<close>

lemma ledger_array: "fst (getLogs w) = Inr (VArr xs) \<Longrightarrow> ledger w = xs"
  by (simp add: ledger_def)

lemma getLogs_depends:
  "items w STORAGE_KEY = items w' STORAGE_KEY \<Longrightarrow> storage_denied w = storage_denied w' \<Longrightarrow>
   fst (getLogs w) = fst (getLogs w')"
  by (simp add: getLogs_def getLogs_try_def getItem_def split: sum.splits)

lemma getLogs_emit [simp]: "fst (getLogs (emit x w)) = fst (getLogs w)"
  by (rule getLogs_depends) (simp_all add: emit_def)

lemma getLogs_console [simp]: "fst (getLogs (console_error s w)) = fst (getLogs w)"
  by (simp add: console_error_def)

lemma getLogs_idem [simp]: "fst (getLogs (snd (getLogs w))) = fst (getLogs w)"
  by (rule getLogs_depends) (simp_all add: getLogs_world)

lemma getLogs_denied: "storage_denied w \<Longrightarrow> fst (getLogs w) = Inr (VArr [])"
  by (simp add: getLogs_def getLogs_try_def getItem_def)

lemma dispatched_append [simp]: "dispatched (xs @ ys) = dispatched xs @ dispatched ys"
  by (simp add: dispatched_def)

lemma getLogs_effects: "dispatched (effects (snd (getLogs w))) = dispatched (effects w)"
  by (simp add: getLogs_def console_error_def emit_def dispatched_def split: sum.splits)

text \<open>What a call does to the state, in both outcomes.\<close>

lemma log_call_cases:
  obtains (kept) old js where
      "took_effect w (p, c, a, m)"
      "\<not> storage_denied w" "\<not> quota_exceeded p" "old_entries w = Inr old"
      "SerializeJSONArray (take 500 (entry_obj (newLog p c a m) # old)) = Inr js"
      "log_call w (p, c, a, m) =
         emit (DispatchEvent ''audit-log-updated'' (entry_obj (newLog p c a m)))
           (stored_after js (snd (getLogs w)))"
  | (dropped) "\<not> took_effect w (p, c, a, m)"
      "log_call w (p, c, a, m) = console_error ''Failed to save audit log:'' (snd (getLogs w))"
proof (cases p "newLog p c a m" w rule: log_try_cases)
  case (kept old js)
  then show ?thesis
    by (intro that(1) [of old js]) (simp_all add: took_effect_def log_call_def log_took_effect)
next
  case (dropped x)
  then show ?thesis
    by (intro that(2)) (simp_all add: took_effect_def log_call_def log_dropped)
qed

lemma store_count_log_call:
  assumes "store_count w \<le> 500"
  shows "store_count (log_call w c) \<le> 500"
proof -
  obtain p k a m where c: "c = (p, k, a, m)" by (cases c)
  show ?thesis
  proof (cases rule: log_call_cases [where w = w and p = p and c = k and a = a and m = m])
    case (kept old js)
    have "\<not> storage_denied (log_call w c)"
      and "items (log_call w c) STORAGE_KEY = Some (JsonText (JArr js))"
      using kept(2) by (simp_all add: c kept(6) emit_def stored_after_def getLogs_world)
    then have "fst (getLogs (log_call w c)) = Inr (VArr (of_jsons js))"
      by (simp add: getLogs_json)
    then have "store_count (log_call w c) = length js"
      by (simp add: store_count_def ledger_array of_jsons_map)
    moreover have "length js \<le> 500"
      using serialize_length [OF kept(5)] by simp
    ultimately show ?thesis by simp
  next
    case dropped
    then show ?thesis
      using assms by (simp add: c store_count_def ledger_def)
  qed
qed

lemma clearLogs_world:
  "snd (clearLogs p w) =
   snd (removeItem STORAGE_KEY (log_call w (p, SECURITY, ''Manual ledger purge initiated'', VUndefined)))"
proof -
  obtain w1 where "log p SECURITY ''Manual ledger purge initiated'' VUndefined w = (Inr (), w1)"
    using log_returns [of p SECURITY "''Manual ledger purge initiated''" VUndefined w]
    by (cases "log p SECURITY ''Manual ledger purge initiated'' VUndefined w") simp
  then show ?thesis
    by (simp add: clearLogs_def log_call_def)
qed

lemma removeItem_reads: "fst (getLogs (snd (removeItem STORAGE_KEY w))) = Inr (VArr [])"
  by (simp add: removeItem_def getLogs_denied getLogs_absent emit_def)

lemma clearLogs_reads: "fst (getLogs (snd (clearLogs p w))) = Inr (VArr [])"
  by (simp only: clearLogs_world removeItem_reads)

lemma store_count_clearLogs: "store_count (snd (clearLogs p w)) = 0"
  by (simp add: store_count_def ledger_def clearLogs_reads)

lemma store_count_getLogs: "store_count (snd (getLogs w)) = store_count w"
  by (simp add: store_count_def ledger_def)

subsection \<open>What is read back is JSON\<close>

lemma of_jsons_take: "take n (of_jsons js) = of_jsons (take n js)"
  by (simp add: of_jsons_map take_map)

lemma getLogs_is_json: "\<exists>d. fst (getLogs w) = Inr (of_json d)"
proof (cases "getLogs_try w")
  case (Inl e)
  then have "fst (getLogs w) = Inr (of_json (JArr []))"
    by (simp add: getLogs_def)
  then show ?thesis ..
next
  case (Inr v)
  have e: "VArr [] = of_json (JArr [])" by simp
  from Inr have "\<exists>d. v = of_json d"
    by (auto simp: getLogs_try_def JSON_parse_def intro: e
        split: sum.splits if_splits option.splits stored.splits)
  with Inr show ?thesis
    by (auto simp: getLogs_def)
qed

lemma spread_json: "spread (of_json d) = Inr old \<Longrightarrow> \<exists>js. old = of_jsons js"
proof (cases d)
  case (JStr s)
  assume "spread (of_json d) = Inr old"
  with JStr have "old = of_jsons (map (\<lambda>c. JStr [c]) s)"
    by (simp add: spread_def of_jsons_map comp_def)
  then show ?thesis ..
qed (auto simp: spread_def)

lemma old_entries_json: "old_entries w = Inr old \<Longrightarrow> \<exists>js. old = of_jsons js"
  using getLogs_is_json [of w] by (auto simp: old_entries_def dest: spread_json)

lemma reloaded_fields:
  "metadata e = VUndefined \<or> json_value (metadata e) \<Longrightarrow>
   entry_fields (reloaded e) = entry_fields (entry_obj e)"
  by (auto simp: entry_fields_def get_prop_def reloaded_def persisted_def entry_obj_def
      json_value_def split: sum.splits option.splits)

lemma reloaded_json: "json_value (metadata e) \<Longrightarrow> reloaded e = entry_obj e"
  by (auto simp: reloaded_def persisted_def entry_obj_def json_value_def
      split: sum.splits option.splits)

subsection \<open>Sorting and filtering in the view\<close>

lemma set_insert_sorted [simp]: "set (insert_sorted cmp x ys) = insert x (set ys)"
  by (induction ys) auto

lemma mset_insert_sorted [simp]: "mset (insert_sorted cmp x ys) = add_mset x (mset ys)"
  by (induction ys) auto

lemma mset_Array_sort [simp]: "mset (Array_sort cmp xs) = mset xs"
  by (induction xs) (simp_all add: Array_sort_def)

text \<open>
  Inserting keeps a list sorted when the comparator is total and transitive, as a
  comparator consistent in the sense of the language standard is.
\<close>

lemma sorted_wrt_insert_sorted:
  assumes total: "\<And>a b. cmp a b \<le> 0 \<or> cmp b a \<le> 0"
    and trans: "\<And>a b c. cmp a b \<le> 0 \<Longrightarrow> cmp b c \<le> 0 \<Longrightarrow> cmp a c \<le> 0"
    and "sorted_wrt (\<lambda>a b. cmp a b \<le> 0) ys"
  shows "sorted_wrt (\<lambda>a b. cmp a b \<le> 0) (insert_sorted cmp x ys)"
  using assms(3)
proof (induction ys)
  case Nil
  then show ?case by simp
next
  case (Cons y ys)
  then have tail: "\<forall>z\<in>set ys. cmp y z \<le> 0" and rest: "sorted_wrt (\<lambda>a b. cmp a b \<le> 0) ys"
    by simp_all
  show ?case
  proof (cases "cmp x y \<le> 0")
    case True
    have "\<forall>z\<in>set ys. cmp x z \<le> 0"
    proof
      fix z assume "z \<in> set ys"
      then have "cmp y z \<le> 0" using tail by blast
      with True show "cmp x z \<le> 0" by (rule trans)
    qed
    with True tail rest show ?thesis by simp
  next
    case False
    then have "cmp y x \<le> 0" using total [of x y] by simp
    moreover have "sorted_wrt (\<lambda>a b. cmp a b \<le> 0) (insert_sorted cmp x ys)"
      using rest by (rule Cons.IH)
    ultimately show ?thesis
      using False tail by simp
  qed
qed

lemma sorted_wrt_Array_sort:
  assumes total: "\<And>a b. cmp a b \<le> 0 \<or> cmp b a \<le> 0"
    and trans: "\<And>a b c. cmp a b \<le> 0 \<Longrightarrow> cmp b c \<le> 0 \<Longrightarrow> cmp a c \<le> 0"
  shows "sorted_wrt (\<lambda>a b. cmp a b \<le> 0) (Array_sort cmp xs)"
proof (induction xs)
  case Nil
  show ?case by (simp add: Array_sort_def)
next
  case (Cons x xs)
  have "sorted_wrt (\<lambda>a b. cmp a b \<le> 0) (insert_sorted cmp x (Array_sort cmp xs))"
    using total trans Cons by (rule sorted_wrt_insert_sorted)
  then show ?case by (simp add: Array_sort_def)
qed

lemma order3_le: "(order3 d x y \<le> 0) = (if d = Asc then x \<le> y else y \<le> x)"
  by (auto simp: order3_def)

lemma sorted_wrt_order3:
  "sorted_wrt (\<lambda>a b. order3 d (k a) (k b) \<le> 0) (Array_sort (\<lambda>a b. order3 d (k a) (k b)) xs)"
proof (rule sorted_wrt_Array_sort)
  fix a b
  show "order3 d (k a) (k b) \<le> 0 \<or> order3 d (k b) (k a) \<le> 0"
    unfolding order3_le by (cases d) auto
next
  fix a b c
  assume "order3 d (k a) (k b) \<le> 0" "order3 d (k b) (k c) \<le> 0"
  then show "order3 d (k a) (k c) \<le> 0"
    unfolding order3_le by (cases d) auto
qed

lemma ordered_Array_sort:
  "ordered d (map k (Array_sort (\<lambda>a b. order3 d (k a) (k b)) xs))"
proof (cases d)
  case Asc
  have "sorted_wrt (\<lambda>a b. k a \<le> k b) (Array_sort (\<lambda>a b. order3 Asc (k a) (k b)) xs)"
    using sorted_wrt_order3 [of Asc k xs] by (simp add: order3_le)
  then show ?thesis
    by (simp only: Asc ordered_def SortDirection.case sorted_map)
next
  case Desc
  have "sorted_wrt (\<lambda>a b. k b \<le> k a) (Array_sort (\<lambda>a b. order3 Desc (k a) (k b)) xs)"
    using sorted_wrt_order3 [of Desc k xs] by (simp add: order3_le)
  then have "sorted_wrt (\<lambda>x y. y \<le> x) (map k (Array_sort (\<lambda>a b. order3 Desc (k a) (k b)) xs))"
    by (simp only: sorted_wrt_map)
  then have "sorted (rev (map k (Array_sort (\<lambda>a b. order3 Desc (k a) (k b)) xs)))"
    by (simp only: sorted_wrt_rev)
  then show ?thesis
    by (simp only: Desc ordered_def SortDirection.case)
qed

lemma in_order_Array_sort: "in_order cfg (Array_sort (compareFn cfg) xs)"
proof (cases "key cfg")
  case Timestamp
  then have "compareFn cfg = (\<lambda>a b. order3 (direction cfg) (timestamp a) (timestamp b))"
    by (intro ext) (simp add: compareFn_def)
  then show ?thesis
    using ordered_Array_sort [of "direction cfg" timestamp xs] by (simp add: in_order_def Timestamp)
next
  case Category
  then have "compareFn cfg = (\<lambda>a b. order3 (direction cfg)
      (toLowerCase (category_text (category a))) (toLowerCase (category_text (category b))))"
    by (intro ext) (simp add: compareFn_def)
  then show ?thesis
    using ordered_Array_sort [of "direction cfg" "\<lambda>e. toLowerCase (category_text (category e))" xs]
    by (simp add: in_order_def Category)
next
  case Action
  then have "compareFn cfg = (\<lambda>a b. order3 (direction cfg)
      (toLowerCase (action a)) (toLowerCase (action b)))"
    by (intro ext) (simp add: compareFn_def)
  then show ?thesis
    using ordered_Array_sort [of "direction cfg" "\<lambda>e. toLowerCase (action e)" xs]
    by (simp add: in_order_def Action)
qed

lemma matchesText_searchable:
  assumes "searchable (metadata e)"
  shows "matchesText nt (toLowerCase q) e =
     Inr (String_includes (toLowerCase (action e)) (toLowerCase q)
          \<or> String_includes (toLowerCase (category_text (category e))) (toLowerCase q)
          \<or> (truthy (metadata e) \<and> metadata_contains nt q e))"
proof (cases "JSON_stringify (metadata e)")
  case (Inl x)
  with assms have "\<not> truthy (metadata e)" by (simp add: searchable_def)
  then show ?thesis by (simp add: matchesText_def)
next
  case (Inr r)
  show ?thesis
  proof (cases r)
    case None
    with Inr assms have "\<not> truthy (metadata e)" by (simp add: searchable_def)
    then show ?thesis by (simp add: matchesText_def)
  next
    case (Some d)
    with Inr show ?thesis by (simp add: matchesText_def metadata_contains_def)
  qed
qed

lemma filter_callback_searchable:
  assumes "searchable (metadata e)"
  shows "filter_callback nt flt q e = Inr (selected nt flt q e)"
proof (cases "q = []")
  case True
  then show ?thesis by (simp add: filter_callback_def selected_def)
next
  case False
  then show ?thesis
    by (simp add: filter_callback_def selected_def matchesText_searchable [OF assms])
qed

lemma Array_filter_total:
  "list_all (\<lambda>x. f x = Inr (P x)) xs \<Longrightarrow> Array_filter f xs = Inr (filter P xs)"
  by (induction xs) simp_all

text \<open>
  The number text decides which queries find a number. With a platform that writes
  10^21 as \<^verbatim>\<open>1e+21\<close>, an entry with the metadata \<^verbatim>\<open>{wei: 1e21}\<close> is found by the query
  \<^verbatim>\<open>e+21\<close> and not by the query \<^verbatim>\<open>000\<close>.
\<close>

lemma exponent_text_is_searched:
  "sortedAndFilteredLogs (\<lambda>n. if n = Finite (10 ^ 21) then ''1e+21'' else [])
     [\<lparr>id' = ''LOG-Q81ZK0A2M'', timestamp = 1700000005000, category = FINANCIAL,
       action = ''Extraction transaction finalized'',
       metadata = VObj [(''wei'', VNum (Finite (10 ^ 21)))]\<rparr>]
     ALL' ''e+21'' \<lparr>key = Timestamp, direction = Desc\<rparr> =
   Inr [\<lparr>id' = ''LOG-Q81ZK0A2M'', timestamp = 1700000005000, category = FINANCIAL,
         action = ''Extraction transaction finalized'',
         metadata = VObj [(''wei'', VNum (Finite (10 ^ 21)))]\<rparr>]"
  "sortedAndFilteredLogs (\<lambda>n. if n = Finite (10 ^ 21) then ''1e+21'' else [])
     [\<lparr>id' = ''LOG-Q81ZK0A2M'', timestamp = 1700000005000, category = FINANCIAL,
       action = ''Extraction transaction finalized'',
       metadata = VObj [(''wei'', VNum (Finite (10 ^ 21)))]\<rparr>]
     ALL' ''000'' \<lparr>key = Timestamp, direction = Desc\<rparr> = Inr []"
  by code_simp+

section \<open>The statements of the specification\<close>

subsection \<open>Appends up to the cap\<close>

text \<open>
  C1. From an empty store that the page may use, after N \<le> 500 calls of \<^verbatim>\<open>log\<close> each of
  which is accepted (the metadata can be serialised and the storage does not refuse the
  write), \<^verbatim>\<open>getLogs\<close> returns exactly the N entries, the last call first, each as it
  reads back from its JSON text. And in every state: after a call of \<^verbatim>\<open>log\<close> that took
  effect, the new entry is at index 0 of what \<^verbatim>\<open>getLogs\<close> returns. A call that is refused
  adds nothing: the statement does not hold for every sequence of calls.
\<close>

theorem log_calls_within_cap:
  "(\<not> storage_denied w \<and> items w STORAGE_KEY = None \<and> list_all accepted cs \<and> length cs \<le> 500 \<longrightarrow>
      fst (getLogs (log_calls w cs)) = Inr (VArr (map (\<lambda>c. reloaded (entry_of c)) (rev cs)))
      \<and> store_count (log_calls w cs) = length cs)
   \<and> (took_effect w' c \<longrightarrow>
        (\<exists>rest. fst (getLogs (log_call w' c)) = Inr (VArr (reloaded (entry_of c) # rest))))"
proof (intro conjI impI)
  assume a: "\<not> storage_denied w \<and> items w STORAGE_KEY = None \<and> list_all accepted cs \<and> length cs \<le> 500"
  then have "fst (getLogs (log_calls w cs)) =
      Inr (VArr (map (\<lambda>c. reloaded (entry_of c)) (take 500 (rev cs))))"
    by (intro log_calls_reads) simp_all
  with a show r: "fst (getLogs (log_calls w cs)) = Inr (VArr (map (\<lambda>c. reloaded (entry_of c)) (rev cs)))"
    by simp
  show "store_count (log_calls w cs) = length cs"
    using ledger_array [OF r] by (simp add: store_count_def)
next
  assume "took_effect w' c"
  then show "\<exists>rest. fst (getLogs (log_call w' c)) = Inr (VArr (reloaded (entry_of c) # rest))"
    by (rule log_call_reads_new)
qed

text \<open>
  The scenario of the specification: three appends with the categories SYSTEM,
  FINANCIAL, SECURITY are read back in the order SECURITY, FINANCIAL, SYSTEM.
\<close>

theorem log_calls_within_cap_witness:
  "fst (getLogs (log_calls fresh
      [(accepting ''0.4fzyo82mvyr'' 1700000000000, SYSTEM, ''boot'', VUndefined),
       (accepting ''0.k1x9c3dq7ab'' 1700000000001, FINANCIAL, ''pay'', VUndefined),
       (accepting ''0.zz81hs6tqp4'' 1700000000002, SECURITY, ''lock'', VUndefined)])) =
     Inr (VArr (map (\<lambda>c. reloaded (entry_of c))
       [(accepting ''0.zz81hs6tqp4'' 1700000000002, SECURITY, ''lock'', VUndefined),
        (accepting ''0.k1x9c3dq7ab'' 1700000000001, FINANCIAL, ''pay'', VUndefined),
        (accepting ''0.4fzyo82mvyr'' 1700000000000, SYSTEM, ''boot'', VUndefined)]))
   \<and> (\<exists>rest. fst (getLogs (log_call fresh
          (accepting ''0.4fzyo82mvyr'' 1700000000000, SYSTEM, ''boot'', VUndefined))) =
        Inr (VArr (reloaded (entry_of
          (accepting ''0.4fzyo82mvyr'' 1700000000000, SYSTEM, ''boot'', VUndefined)) # rest)))"
proof -
  let ?cs = "[(accepting ''0.4fzyo82mvyr'' 1700000000000, SYSTEM, ''boot'', VUndefined),
       (accepting ''0.k1x9c3dq7ab'' 1700000000001, FINANCIAL, ''pay'', VUndefined),
       (accepting ''0.zz81hs6tqp4'' 1700000000002, SECURITY, ''lock'', VUndefined)]"
  let ?c = "(accepting ''0.4fzyo82mvyr'' 1700000000000, SYSTEM, ''boot'', VUndefined)"
  have h1: "\<not> storage_denied fresh \<and> items fresh STORAGE_KEY = None \<and> list_all accepted ?cs
      \<and> length ?cs \<le> 500"
    by code_simp
  have h2: "took_effect fresh ?c"
    by code_simp
  show ?thesis
    using log_calls_within_cap [of fresh ?cs fresh ?c] h1 h2 by simp
qed

text \<open>One call whose write the storage refuses: nothing is read back.\<close>

theorem refused_append_is_lost:
  "fst (getLogs (log_calls fresh
      [(refusing ''0.4fzyo82mvyr'' 1700000000000, SYSTEM, ''boot'', VUndefined)])) = Inr (VArr [])
   \<and> store_count (log_calls fresh
      [(refusing ''0.4fzyo82mvyr'' 1700000000000, SYSTEM, ''boot'', VUndefined)]) = 0"
  by code_simp

subsection \<open>No error reaches the caller\<close>


lemma log_call_dropped_reads:
  assumes "\<not> took_effect w c"
  shows "fst (getLogs (log_call w c)) = fst (getLogs w)"
proof -
  obtain p k a m where c: "c = (p, k, a, m)" by (cases c)
  show ?thesis
  proof (cases rule: log_call_cases [where w = w and p = p and c = k and a = a and m = m])
    case (kept old js)
    with assms show ?thesis by (simp add: c)
  next
    case dropped
    then show ?thesis by (simp add: c)
  qed
qed

lemma refused_took_no_effect: "quota_exceeded (fst c) \<Longrightarrow> \<not> took_effect w c"
proof -
  assume q: "quota_exceeded (fst c)"
  obtain p k a m where c: "c = (p, k, a, m)" by (cases c)
  show ?thesis
  proof (cases rule: log_call_cases [where w = w and p = p and c = k and a = a and m = m])
    case (kept old js)
    with q show ?thesis by (simp add: c)
  next
    case dropped
    then show ?thesis by (simp add: c)
  qed
qed

lemma log_calls_refused:
  "list_all (\<lambda>c. quota_exceeded (fst c)) cs \<Longrightarrow>
   fst (getLogs (log_calls w cs)) = fst (getLogs w)"
proof (induction cs rule: rev_induct)
  case Nil
  show ?case by (simp add: log_calls_def)
next
  case (snoc c cs)
  then have "\<not> took_effect (log_calls w cs) c"
    by (simp add: refused_took_no_effect)
  then have "fst (getLogs (log_call (log_calls w cs) c)) = fst (getLogs (log_calls w cs))"
    by (rule log_call_dropped_reads)
  with snoc show ?case
    by (simp add: log_calls_snoc)
qed

subsection \<open>Appends beyond the cap\<close>

text \<open>
  C2. From an empty store that the page may use, after N > 500 accepted calls of \<^verbatim>\<open>log\<close>,
  \<^verbatim>\<open>getLogs\<close> returns exactly the entries of the last 500 calls, the last call first. And
  the bound is kept by every operation in every state: when \<^verbatim>\<open>getLogs\<close> returns at most
  500 entries, it still does so after \<^verbatim>\<open>log\<close>, after \<^verbatim>\<open>clearLogs\<close> and after \<^verbatim>\<open>getLogs\<close>.
  Calls that are refused add nothing, so more than 500 calls need not leave 500 entries.
\<close>

theorem log_calls_beyond_cap:
  "(\<not> storage_denied w \<and> items w STORAGE_KEY = None \<and> list_all accepted cs \<and> 500 < length cs \<longrightarrow>
      fst (getLogs (log_calls w cs)) =
        Inr (VArr (map (\<lambda>c. reloaded (entry_of c)) (rev (drop (length cs - 500) cs))))
      \<and> store_count (log_calls w cs) = 500)
   \<and> (store_count w' \<le> 500 \<longrightarrow>
        store_count (log_call w' c) \<le> 500
        \<and> store_count (snd (clearLogs p w')) \<le> 500
        \<and> store_count (snd (getLogs w')) \<le> 500)"
proof (intro conjI impI)
  assume a: "\<not> storage_denied w \<and> items w STORAGE_KEY = None \<and> list_all accepted cs \<and> 500 < length cs"
  then have "fst (getLogs (log_calls w cs)) =
      Inr (VArr (map (\<lambda>c. reloaded (entry_of c)) (take 500 (rev cs))))"
    by (intro log_calls_reads) simp_all
  then show r: "fst (getLogs (log_calls w cs)) =
        Inr (VArr (map (\<lambda>c. reloaded (entry_of c)) (rev (drop (length cs - 500) cs))))"
    by (simp add: take_rev)
  show "store_count (log_calls w cs) = 500"
    using ledger_array [OF r] a by (simp add: store_count_def)
next
  assume "store_count w' \<le> 500"
  then show "store_count (log_call w' c) \<le> 500" "store_count (snd (getLogs w')) \<le> 500"
    by (simp_all add: store_count_log_call store_count_getLogs)
next
  show "store_count (snd (clearLogs p w')) \<le> 500"
    by (simp add: store_count_clearLogs)
qed

text \<open>
  The scenario of the specification: 501 accepted appends \<^verbatim>\<open>evt-0\<close> to \<^verbatim>\<open>evt-500\<close> leave
  the 500 entries of \<^verbatim>\<open>evt-500\<close> down to \<^verbatim>\<open>evt-1\<close>.
\<close>

theorem log_calls_beyond_cap_witness:
  "fst (getLogs (log_calls fresh (burst False))) =
     Inr (VArr (map (\<lambda>c. reloaded (entry_of c))
       (rev (drop (length (burst False) - 500) (burst False)))))
   \<and> store_count (log_calls fresh (burst False)) = 500
   \<and> store_count (log_call fresh (refusing ''0.4fzyo82mvyr'' 1700000000000, SYSTEM, ''boot'', VUndefined)) \<le> 500
   \<and> store_count (snd (clearLogs (accepting ''0.4fzyo82mvyr'' 1700000000000) fresh)) \<le> 500
   \<and> store_count (snd (getLogs fresh)) \<le> 500"
proof -
  have "list_all accepted (burst False)"
    by (simp add: burst_def list_all_iff accepted_def serialisable_def)
  moreover have "500 < length (burst False)"
    by (simp add: burst_def)
  moreover have "\<not> storage_denied fresh \<and> items fresh STORAGE_KEY = None"
    by (simp add: fresh_def)
  ultimately have h1: "\<not> storage_denied fresh \<and> items fresh STORAGE_KEY = None
      \<and> list_all accepted (burst False) \<and> 500 < length (burst False)"
    by simp
  have h2: "store_count fresh \<le> 500"
    by code_simp
  show ?thesis
    using log_calls_beyond_cap [of fresh "burst False" fresh
        "(refusing ''0.4fzyo82mvyr'' 1700000000000, SYSTEM, ''boot'', VUndefined)"
        "accepting ''0.4fzyo82mvyr'' 1700000000000"] h1 h2
    by blast
qed

text \<open>The same 501 appends with a storage that refuses every write: nothing is kept.\<close>

theorem refused_burst_is_lost:
  "length (burst True) = 501 \<and> store_count (log_calls fresh (burst True)) = 0"
proof -
  have "list_all (\<lambda>c. quota_exceeded (fst c)) (burst True)"
    by (simp add: burst_def list_all_iff)
  then have "fst (getLogs (log_calls fresh (burst True))) = fst (getLogs fresh)"
    by (rule log_calls_refused)
  also have "\<dots> = Inr (VArr [])"
    by (simp add: getLogs_absent fresh_def)
  finally show ?thesis
    by (simp add: store_count_def ledger_def burst_def)
qed

subsection \<open>Clearing the ledger\<close>

lemma clearLogs_removeItem:
  "clearLogs p w =
   removeItem STORAGE_KEY (log_call w (p, SECURITY, ''Manual ledger purge initiated'', VUndefined))"
proof -
  obtain w1 where "log p SECURITY ''Manual ledger purge initiated'' VUndefined w = (Inr (), w1)"
    using log_returns [of p SECURITY "''Manual ledger purge initiated''" VUndefined w]
    by (cases "log p SECURITY ''Manual ledger purge initiated'' VUndefined w") simp
  then show ?thesis
    by (simp add: clearLogs_def log_call_def)
qed

lemma purge_record:
  "persisted (newLog p SECURITY ''Manual ledger purge initiated'' VUndefined) =
     JObj [(''id'', JStr (''LOG-'' @ toUpperCase (substr 2 9 (random36 p)))),
           (''timestamp'', JNum (now p)),
           (''category'', JStr ''SECURITY''),
           (''action'', JStr ''Manual ledger purge initiated'')]"
  "entry_obj (newLog p SECURITY ''Manual ledger purge initiated'' VUndefined) =
     VObj [(''id'', VStr (''LOG-'' @ toUpperCase (substr 2 9 (random36 p)))),
           (''timestamp'', VNum (Finite (now p))),
           (''category'', VStr ''SECURITY''),
           (''action'', VStr ''Manual ledger purge initiated''),
           (''metadata'', VUndefined)]"
  by (simp_all add: persisted_def entry_obj_def newLog_def)

text \<open>
  C3. \<^verbatim>\<open>clearLogs\<close> calls \<^verbatim>\<open>log\<close> for a purge record and then removes the storage key.
  When this append takes effect, the sequence headed by the purge record (its id made
  from the draw, the time of the call, the category SECURITY, the action
  \<^verbatim>\<open>Manual ledger purge initiated\<close>, no metadata) is stored and announced, and then the key
  is removed. When the append does not take effect on a usable storage, no record is
  stored: the failure is written to the console and the key is removed. On a usable
  storage \<^verbatim>\<open>clearLogs\<close> returns normally and leaves no value under the key. For every
  prior state, \<^verbatim>\<open>getLogs\<close> after \<^verbatim>\<open>clearLogs\<close> returns the empty sequence. The purge record
  is thus not appended in every call.
\<close>

theorem clearLogs_purges:
  "fst (getLogs (snd (clearLogs p w))) = Inr (VArr [])
   \<and> (\<not> storage_denied w \<longrightarrow>
        fst (clearLogs p w) = Inr () \<and> items (snd (clearLogs p w)) STORAGE_KEY = None)
   \<and> (took_effect w (p, SECURITY, ''Manual ledger purge initiated'', VUndefined) \<longrightarrow>
        (\<exists>rest. effects (snd (clearLogs p w)) =
           effects (snd (getLogs w)) @
             [SetItem STORAGE_KEY (JsonText (JArr
                (JObj [(''id'', JStr (''LOG-'' @ toUpperCase (substr 2 9 (random36 p)))),
                       (''timestamp'', JNum (now p)),
                       (''category'', JStr ''SECURITY''),
                       (''action'', JStr ''Manual ledger purge initiated'')] # rest))),
              DispatchEvent ''audit-log-updated''
                (VObj [(''id'', VStr (''LOG-'' @ toUpperCase (substr 2 9 (random36 p)))),
                       (''timestamp'', VNum (Finite (now p))),
                       (''category'', VStr ''SECURITY''),
                       (''action'', VStr ''Manual ledger purge initiated''),
                       (''metadata'', VUndefined)]),
              RemoveItem STORAGE_KEY]))
   \<and> (\<not> took_effect w (p, SECURITY, ''Manual ledger purge initiated'', VUndefined)
        \<and> \<not> storage_denied w \<longrightarrow>
        effects (snd (clearLogs p w)) =
          effects (snd (getLogs w)) @
            [ConsoleError ''Failed to save audit log:'', RemoveItem STORAGE_KEY])"
proof (cases rule: log_call_cases [where w = w and p = p and c = SECURITY
      and a = "''Manual ledger purge initiated''" and m = VUndefined])
  case (kept old js)
  obtain rest where js:
    "js = persisted (newLog p SECURITY ''Manual ledger purge initiated'' VUndefined) # rest"
    using serialize_new_head [OF kept(5)] by blast
  have r: "clearLogs p w =
      (Inr (), emit (RemoveItem STORAGE_KEY)
        ((log_call w (p, SECURITY, ''Manual ledger purge initiated'', VUndefined))
           \<lparr>items := (items (log_call w (p, SECURITY, ''Manual ledger purge initiated'', VUndefined)))
              (STORAGE_KEY := None)\<rparr>))"
    using kept(2)
    by (simp add: clearLogs_removeItem removeItem_def kept(6) emit_def stored_after_def
        getLogs_world)
  have "effects (snd (clearLogs p w)) =
      effects (snd (getLogs w)) @
        [SetItem STORAGE_KEY (JsonText (JArr js)),
         DispatchEvent ''audit-log-updated''
           (entry_obj (newLog p SECURITY ''Manual ledger purge initiated'' VUndefined)),
         RemoveItem STORAGE_KEY]"
    by (simp add: r kept(6) emit_def stored_after_def)
  moreover have "fst (clearLogs p w) = Inr ()" "items (snd (clearLogs p w)) STORAGE_KEY = None"
    by (simp_all add: r emit_def)
  ultimately show ?thesis
    using kept(1) clearLogs_reads [of p w] by (simp add: js purge_record)
next
  case dropped
  have "\<not> storage_denied w \<longrightarrow>
      clearLogs p w =
        (Inr (), emit (RemoveItem STORAGE_KEY)
          ((log_call w (p, SECURITY, ''Manual ledger purge initiated'', VUndefined))
             \<lparr>items := (items (log_call w (p, SECURITY, ''Manual ledger purge initiated'', VUndefined)))
                (STORAGE_KEY := None)\<rparr>))"
    by (simp add: clearLogs_removeItem removeItem_def dropped(2) console_error_def emit_def
        getLogs_world)
  then show ?thesis
    using dropped(1) clearLogs_reads [of p w]
    by (auto simp: dropped(2) console_error_def emit_def)
qed

text \<open>
  A ledger with one entry is purged, once on a platform that accepts the write of the
  purge record and once on one that refuses it.
\<close>

theorem clearLogs_purges_witness:
  "fst (clearLogs (accepting ''0.9d2kq0x7mna'' 1700000009000)
      (log_call fresh (accepting ''0.4fzyo82mvyr'' 1700000000000, SYSTEM, ''boot'', VUndefined))) =
     Inr ()
   \<and> items (snd (clearLogs (accepting ''0.9d2kq0x7mna'' 1700000009000)
      (log_call fresh (accepting ''0.4fzyo82mvyr'' 1700000000000, SYSTEM, ''boot'', VUndefined))))
      STORAGE_KEY = None
   \<and> (\<exists>rest. effects (snd (clearLogs (accepting ''0.9d2kq0x7mna'' 1700000009000)
        (log_call fresh (accepting ''0.4fzyo82mvyr'' 1700000000000, SYSTEM, ''boot'', VUndefined)))) =
        effects (snd (getLogs
          (log_call fresh (accepting ''0.4fzyo82mvyr'' 1700000000000, SYSTEM, ''boot'', VUndefined)))) @
          [SetItem STORAGE_KEY (JsonText (JArr
             (JObj [(''id'', JStr (''LOG-'' @ toUpperCase (substr 2 9
                       (random36 (accepting ''0.9d2kq0x7mna'' 1700000009000))))),
                    (''timestamp'', JNum (now (accepting ''0.9d2kq0x7mna'' 1700000009000))),
                    (''category'', JStr ''SECURITY''),
                    (''action'', JStr ''Manual ledger purge initiated'')] # rest))),
           DispatchEvent ''audit-log-updated''
             (VObj [(''id'', VStr (''LOG-'' @ toUpperCase (substr 2 9
                       (random36 (accepting ''0.9d2kq0x7mna'' 1700000009000))))),
                    (''timestamp'', VNum (Finite (now (accepting ''0.9d2kq0x7mna'' 1700000009000)))),
                    (''category'', VStr ''SECURITY''),
                    (''action'', VStr ''Manual ledger purge initiated''),
                    (''metadata'', VUndefined)]),
           RemoveItem STORAGE_KEY])
   \<and> effects (snd (clearLogs (refusing ''0.9d2kq0x7mna'' 1700000009000)
        (log_call fresh (accepting ''0.4fzyo82mvyr'' 1700000000000, SYSTEM, ''boot'', VUndefined)))) =
        effects (snd (getLogs
          (log_call fresh (accepting ''0.4fzyo82mvyr'' 1700000000000, SYSTEM, ''boot'', VUndefined)))) @
          [ConsoleError ''Failed to save audit log:'', RemoveItem STORAGE_KEY]"
proof -
  let ?w = "log_call fresh (accepting ''0.4fzyo82mvyr'' 1700000000000, SYSTEM, ''boot'', VUndefined)"
  let ?p = "accepting ''0.9d2kq0x7mna'' 1700000009000"
  let ?r = "refusing ''0.9d2kq0x7mna'' 1700000009000"
  have h0: "\<not> storage_denied ?w"
    by code_simp
  have h1: "took_effect ?w (?p, SECURITY, ''Manual ledger purge initiated'', VUndefined)"
    by code_simp
  have h2: "\<not> took_effect ?w (?r, SECURITY, ''Manual ledger purge initiated'', VUndefined)"
    by code_simp
  show ?thesis
    using clearLogs_purges [of ?p ?w] clearLogs_purges [of ?r ?w] h0 h1 h2 by blast
qed

text \<open>
  The same ledger purged while the storage refuses the write: the ledger that the call
  of \<^verbatim>\<open>log\<close> leaves still has the one old entry and no purge record, and all that
  \<^verbatim>\<open>clearLogs\<close> does after the two effects of the first append is to write to the
  console and to remove the key.
\<close>

theorem purge_record_not_appended:
  "map (get_prop ''action'')
     (ledger (log_call
        (log_call fresh (accepting ''0.4fzyo82mvyr'' 1700000000000, SYSTEM, ''boot'', VUndefined))
        (refusing ''0.9d2kq0x7mna'' 1700000009000, SECURITY, ''Manual ledger purge initiated'',
         VUndefined))) = [VStr ''boot'']
   \<and> drop 2 (effects (snd (clearLogs (refusing ''0.9d2kq0x7mna'' 1700000009000)
        (log_call fresh (accepting ''0.4fzyo82mvyr'' 1700000000000, SYSTEM, ''boot'', VUndefined))))) =
       [ConsoleError ''Failed to save audit log:'', RemoveItem STORAGE_KEY]"
  by code_simp

subsection \<open>The order of the write and the event\<close>

text \<open>
  C4. A call of \<^verbatim>\<open>log\<close> that took effect does exactly two things after reading the
  ledger, in this order: it stores the updated sequence, headed by the new entry, under
  the storage key, and it dispatches one \<^verbatim>\<open>audit-log-updated\<close> event whose detail is the
  new entry. A call that did not take effect (the storage is denied or refuses the
  write, or the list cannot be spread or serialised) dispatches no event and leaves the
  storage as it was: the event is not emitted on every call.
\<close>

theorem log_stores_then_dispatches:
  "(took_effect w (p, c, a, m) \<longrightarrow>
      (\<exists>rest.
         effects (log_call w (p, c, a, m)) =
           effects (snd (getLogs w)) @
             [SetItem STORAGE_KEY (JsonText (JArr (persisted (newLog p c a m) # rest))),
              DispatchEvent ''audit-log-updated'' (entry_obj (newLog p c a m))]
         \<and> items (log_call w (p, c, a, m)) STORAGE_KEY =
             Some (JsonText (JArr (persisted (newLog p c a m) # rest)))))
   \<and> (\<not> took_effect w (p, c, a, m) \<longrightarrow>
        dispatched (effects (log_call w (p, c, a, m))) = dispatched (effects w)
        \<and> items (log_call w (p, c, a, m)) = items w)"
proof (cases rule: log_call_cases [where w = w and p = p and c = c and a = a and m = m])
  case (kept old js)
  obtain rest where js: "js = persisted (newLog p c a m) # rest"
    using serialize_new_head [OF kept(5)] by blast
  show ?thesis
    using kept(1) by (simp add: kept(6) js emit_def stored_after_def)
next
  case dropped
  then show ?thesis
    by (simp add: console_error_def emit_def getLogs_effects getLogs_world)
      (simp add: dispatched_def)
qed

text \<open>An accepted call and a refused call on a new profile.\<close>

theorem log_stores_then_dispatches_witness:
  "(\<exists>rest.
      effects (log_call fresh (accepting ''0.4fzyo82mvyr'' 1700000000000, SYSTEM, ''boot'', VUndefined)) =
        effects (snd (getLogs fresh)) @
          [SetItem STORAGE_KEY (JsonText (JArr (persisted
             (newLog (accepting ''0.4fzyo82mvyr'' 1700000000000) SYSTEM ''boot'' VUndefined) # rest))),
           DispatchEvent ''audit-log-updated'' (entry_obj
             (newLog (accepting ''0.4fzyo82mvyr'' 1700000000000) SYSTEM ''boot'' VUndefined))]
      \<and> items (log_call fresh (accepting ''0.4fzyo82mvyr'' 1700000000000, SYSTEM, ''boot'', VUndefined))
           STORAGE_KEY =
          Some (JsonText (JArr (persisted
             (newLog (accepting ''0.4fzyo82mvyr'' 1700000000000) SYSTEM ''boot'' VUndefined) # rest))))
   \<and> dispatched (effects (log_call fresh
        (refusing ''0.4fzyo82mvyr'' 1700000000000, SYSTEM, ''boot'', VUndefined))) =
       dispatched (effects fresh)
   \<and> items (log_call fresh (refusing ''0.4fzyo82mvyr'' 1700000000000, SYSTEM, ''boot'', VUndefined)) =
       items fresh"
proof -
  have h1: "took_effect fresh (accepting ''0.4fzyo82mvyr'' 1700000000000, SYSTEM, ''boot'', VUndefined)"
    by code_simp
  have h2: "\<not> took_effect fresh (refusing ''0.4fzyo82mvyr'' 1700000000000, SYSTEM, ''boot'', VUndefined)"
    by code_simp
  show ?thesis
    using log_stores_then_dispatches
        [of fresh "accepting ''0.4fzyo82mvyr'' 1700000000000" SYSTEM "''boot''" VUndefined]
      log_stores_then_dispatches
        [of fresh "refusing ''0.4fzyo82mvyr'' 1700000000000" SYSTEM "''boot''" VUndefined]
      h1 h2
    by blast
qed

text \<open>
  A call whose write the storage refuses: the only effect is the line on the console,
  no event is dispatched.
\<close>

theorem refused_append_is_silent:
  "effects (log_call fresh (refusing ''0.4fzyo82mvyr'' 1700000000000, SYSTEM, ''boot'', VUndefined)) =
     [ConsoleError ''Failed to save audit log:'']
   \<and> dispatched (effects (log_call fresh
        (refusing ''0.4fzyo82mvyr'' 1700000000000, SYSTEM, ''boot'', VUndefined))) = []"
  by code_simp

subsection \<open>Reading what the service did not write\<close>

text \<open>
  C6. \<^verbatim>\<open>getLogs\<close> never raises an exception, whatever the storage holds or does. It
  returns the empty sequence when the storage is denied, when the key is absent, when
  the value is the empty string, and when the value is not JSON text. A value that is
  JSON text is returned as parsed, whatever its shape: there is no validation, so a
  document that is not a sequence of entries is not treated as "no entries".
\<close>

theorem getLogs_fallback:
  "(\<exists>v. fst (getLogs w) = Inr v)
   \<and> (storage_denied w \<or> items w STORAGE_KEY = None \<or> items w STORAGE_KEY = Some EmptyText
        \<or> items w STORAGE_KEY = Some OtherText \<longrightarrow> fst (getLogs w) = Inr (VArr []))
   \<and> (\<not> storage_denied w \<and> items w STORAGE_KEY = Some (JsonText d) \<longrightarrow>
        fst (getLogs w) = Inr (of_json d))"
  by (auto simp: getLogs_value getLogs_denied getLogs_absent getLogs_json)
    (simp_all add: getLogs_def getLogs_try_def getItem_def truthy_item_def JSON_parse_def)

text \<open>A text that is no JSON, and the JSON text of an empty array.\<close>

theorem getLogs_fallback_witness:
  "fst (getLogs (holding OtherText)) = Inr (VArr [])
   \<and> fst (getLogs (holding (JsonText (JArr [])))) = Inr (of_json (JArr []))"
proof -
  have h1: "storage_denied (holding OtherText) \<or> items (holding OtherText) STORAGE_KEY = None
      \<or> items (holding OtherText) STORAGE_KEY = Some EmptyText
      \<or> items (holding OtherText) STORAGE_KEY = Some OtherText"
    by code_simp
  have h2: "\<not> storage_denied (holding (JsonText (JArr [])))
      \<and> items (holding (JsonText (JArr []))) STORAGE_KEY = Some (JsonText (JArr []))"
    by code_simp
  show ?thesis
    using getLogs_fallback [of "holding OtherText"]
      getLogs_fallback [of "holding (JsonText (JArr []))" "JArr []"] h1 h2
    by blast
qed

text \<open>
  The key holds the JSON text \<^verbatim>\<open>{"version":2,"entries":[]}\<close>, a ledger in another layout:
  \<^verbatim>\<open>getLogs\<close> returns that object, not the empty sequence.
\<close>

theorem getLogs_other_shape:
  "fst (getLogs (holding (JsonText (JObj [(''version'', JNum 2), (''entries'', JArr [])])))) =
     Inr (VObj [(''version'', VNum (Finite 2)), (''entries'', VArr [])])
   \<and> fst (getLogs (holding (JsonText (JObj [(''version'', JNum 2), (''entries'', JArr [])])))) \<noteq>
     Inr (VArr [])"
  by code_simp

subsection \<open>Writing and reading back\<close>

text \<open>
  C7. When a call of \<^verbatim>\<open>log\<close> took effect and its metadata is a JSON value or is omitted,
  the sequence that \<^verbatim>\<open>getLogs\<close> then parses from the storage has the same entries in the
  same order as the sequence \<^verbatim>\<open>updatedLogs\<close> that the call serialised: the five fields of
  every entry agree, and with JSON metadata the two sequences are equal. Metadata with
  other values (\<^verbatim>\<open>undefined\<close> properties, functions, non-finite numbers) is changed by
  the round trip.
\<close>

theorem reload_after_append:
  assumes "took_effect w (p, c, a, m)" "m = VUndefined \<or> json_value m" "old_entries w = Inr old"
  shows "\<exists>ys. fst (getLogs (log_call w (p, c, a, m))) = Inr (VArr ys)
     \<and> map entry_fields ys = map entry_fields (take 500 (entry_obj (newLog p c a m) # old))
     \<and> (json_value m \<longrightarrow> ys = take 500 (entry_obj (newLog p c a m) # old))"
proof (cases rule: log_call_cases [where w = w and p = p and c = c and a = a and m = m])
  case (kept old' js)
  let ?e = "newLog p c a m"
  have m: "metadata ?e = m" by (simp add: newLog_def)
  obtain js0 where old: "old = of_jsons js0"
    using old_entries_json [OF assms(3)] by blast
  have "old' = old" using kept(4) assms(3) by simp
  then have ser: "SerializeJSONArray (entry_obj ?e # of_jsons (take 499 js0)) = Inr js"
    using kept(5) by (simp add: old of_jsons_take)
  then obtain r where "SerializeJSONProperty (entry_obj ?e) = Inr r"
    by (auto split: sum.splits)
  then have "SerializeJSONProperty (entry_obj ?e) = Inr (Some (persisted ?e))"
    using serialize_entry_result by blast
  with ser have js: "js = persisted ?e # take 499 js0"
    by (simp add: serialize_of_json)
  have "holds (log_call w (p, c, a, m)) js"
    using kept(2) by (simp add: kept(6) js holds_def emit_def stored_after_def getLogs_world)
  then have g: "fst (getLogs (log_call w (p, c, a, m))) = Inr (VArr (reloaded ?e # take 499 old))"
    by (simp add: holds_getLogs js reloaded_def old of_jsons_take)
  have "map entry_fields (reloaded ?e # take 499 old) =
      map entry_fields (take 500 (entry_obj ?e # old))"
    using assms(2) reloaded_fields [of ?e] by (simp add: m)
  moreover have "json_value m \<longrightarrow> reloaded ?e # take 499 old = take 500 (entry_obj ?e # old)"
    using reloaded_json [of ?e] by (simp add: m)
  ultimately show ?thesis
    using g by blast
next
  case dropped
  with assms(1) show ?thesis by simp
qed

text \<open>An append with JSON metadata to a ledger of one entry.\<close>

theorem reload_after_append_witness:
  "\<exists>ys. fst (getLogs (log_call
        (log_call fresh (accepting ''0.4fzyo82mvyr'' 1700000000000, SYSTEM, ''boot'', VUndefined))
        (accepting ''0.k1x9c3dq7ab'' 1700000000001, OPERATION, ''Neural node hashrate re-balanced'',
         VObj [(''node'', VStr ''Alpha-X-7'')]))) = Inr (VArr ys)
     \<and> map entry_fields ys = map entry_fields (take 500
          (entry_obj (newLog (accepting ''0.k1x9c3dq7ab'' 1700000000001) OPERATION
             ''Neural node hashrate re-balanced'' (VObj [(''node'', VStr ''Alpha-X-7'')]))
           # [reloaded (newLog (accepting ''0.4fzyo82mvyr'' 1700000000000) SYSTEM ''boot'' VUndefined)]))
     \<and> ys = take 500
          (entry_obj (newLog (accepting ''0.k1x9c3dq7ab'' 1700000000001) OPERATION
             ''Neural node hashrate re-balanced'' (VObj [(''node'', VStr ''Alpha-X-7'')]))
           # [reloaded (newLog (accepting ''0.4fzyo82mvyr'' 1700000000000) SYSTEM ''boot'' VUndefined)])"
proof -
  let ?w = "log_call fresh (accepting ''0.4fzyo82mvyr'' 1700000000000, SYSTEM, ''boot'', VUndefined)"
  let ?p = "accepting ''0.k1x9c3dq7ab'' 1700000000001"
  let ?m = "VObj [(''node'', VStr ''Alpha-X-7'')]"
  have h1: "took_effect ?w (?p, OPERATION, ''Neural node hashrate re-balanced'', ?m)"
    by code_simp
  have h2: "json_value ?m"
    by code_simp
  have h3: "old_entries ?w =
      Inr [reloaded (newLog (accepting ''0.4fzyo82mvyr'' 1700000000000) SYSTEM ''boot'' VUndefined)]"
    by code_simp
  show ?thesis
    using reload_after_append [OF h1 _ h3] h2 by blast
qed

text \<open>
  A call with the metadata \<^verbatim>\<open>{confidence: NaN}\<close>: the entry that is read back has
  \<^verbatim>\<open>{"confidence": null}\<close>.
\<close>

theorem reload_changes_metadata:
  "map (get_prop ''metadata'') (ledger (log_call fresh
      (accepting ''0.4fzyo82mvyr'' 1700000000000, AI, ''Yield curve re-calculation'',
       VObj [(''confidence'', VNum NaN)]))) =
     [VObj [(''confidence'', VNull)]]
   \<and> map (get_prop ''metadata'')
       [entry_obj (newLog (accepting ''0.4fzyo82mvyr'' 1700000000000) AI
          ''Yield curve re-calculation'' (VObj [(''confidence'', VNum NaN)]))] =
     [VObj [(''confidence'', VNum NaN)]]"
  by code_simp

subsection \<open>Identifiers\<close>

lemma reloaded_id: "get_prop ''id'' (reloaded e) = VStr (id' e)"
  by (simp add: get_prop_def reloaded_def persisted_def)

text \<open>
  C9. The id of an entry is made when \<^verbatim>\<open>log\<close> is called, from the random draw alone:
  the letters \<^verbatim>\<open>LOG-\<close> and then the characters 3 to 11 of the base-36 text of the draw, in
  upper case. The ids of two calls are equal exactly when these characters of their
  draws are, and the ids in the ledger are the ids so made: nothing compares a new id
  with the ids in the ledger, so two calls can make the same id.
\<close>

theorem newLog_id:
  "id' (newLog p c a m) = ''LOG-'' @ toUpperCase (substr 2 9 (random36 p))
   \<and> (id' (newLog p c a m) = id' (newLog q c' a' m')) =
       (toUpperCase (substr 2 9 (random36 p)) = toUpperCase (substr 2 9 (random36 q)))
   \<and> (\<not> storage_denied w \<and> items w STORAGE_KEY = None \<and> list_all accepted cs \<longrightarrow>
        map (get_prop ''id'') (ledger (log_calls w cs)) =
          map (\<lambda>c. VStr (id' (entry_of c))) (take 500 (rev cs)))"
proof (intro conjI impI)
  assume "\<not> storage_denied w \<and> items w STORAGE_KEY = None \<and> list_all accepted cs"
  then have "fst (getLogs (log_calls w cs)) =
      Inr (VArr (map (\<lambda>c. reloaded (entry_of c)) (take 500 (rev cs))))"
    by (intro log_calls_reads) simp_all
  then have "ledger (log_calls w cs) = map (\<lambda>c. reloaded (entry_of c)) (take 500 (rev cs))"
    by (rule ledger_array)
  then show "map (get_prop ''id'') (ledger (log_calls w cs)) =
          map (\<lambda>c. VStr (id' (entry_of c))) (take 500 (rev cs))"
    by (simp add: reloaded_id)
qed (simp_all add: newLog_def)

text \<open>Two calls with draws that differ early: the ledger has their two ids.\<close>

theorem newLog_id_witness:
  "map (get_prop ''id'') (ledger (log_calls fresh
      [(accepting ''0.4fzyo82mvyr'' 1700000000000, SYSTEM, ''boot'', VUndefined),
       (accepting ''0.k1x9c3dq7ab'' 1700000000001, FINANCIAL, ''pay'', VUndefined)])) =
     map (\<lambda>c. VStr (id' (entry_of c))) (take 500 (rev
      [(accepting ''0.4fzyo82mvyr'' 1700000000000, SYSTEM, ''boot'', VUndefined),
       (accepting ''0.k1x9c3dq7ab'' 1700000000001, FINANCIAL, ''pay'', VUndefined)]))"
proof -
  let ?cs = "[(accepting ''0.4fzyo82mvyr'' 1700000000000, SYSTEM, ''boot'', VUndefined),
       (accepting ''0.k1x9c3dq7ab'' 1700000000001, FINANCIAL, ''pay'', VUndefined)]"
  have h: "\<not> storage_denied fresh \<and> items fresh STORAGE_KEY = None \<and> list_all accepted ?cs"
    by code_simp
  show ?thesis
    using newLog_id [where w = fresh and cs = ?cs] h by blast
qed

text \<open>
  Two calls with different draws that agree in their first nine digits: both entries
  of the ledger have the id \<^verbatim>\<open>LOG-4FZYO82MV\<close>.
\<close>

theorem two_entries_one_id:
  "map (get_prop ''id'') (ledger (log_calls fresh
      [(accepting ''0.4fzyo82mvyr'' 1700000000000, SYSTEM, ''boot'', VUndefined),
       (accepting ''0.4fzyo82mvzz'' 1700000000001, FINANCIAL, ''pay'', VUndefined)])) =
     [VStr ''LOG-4FZYO82MV'', VStr ''LOG-4FZYO82MV'']"
  by code_simp

subsection \<open>The purge record and its event\<close>

text \<open>
  C10. In a call of \<^verbatim>\<open>clearLogs\<close> whose purge append took effect, the purge entry is
  stored, then the event with the purge entry is dispatched, and only then the storage
  key is removed; afterwards \<^verbatim>\<open>getLogs\<close> returns the empty sequence, so the listeners
  have received an entry that the store does not contain. When the purge append did not
  take effect, no event is dispatched at all.
\<close>

theorem clearLogs_dispatches_then_removes:
  "(took_effect w (p, SECURITY, ''Manual ledger purge initiated'', VUndefined) \<longrightarrow>
      (\<exists>t. effects (snd (clearLogs p w)) =
           effects (snd (getLogs w)) @
             [SetItem STORAGE_KEY t,
              DispatchEvent ''audit-log-updated''
                (entry_obj (newLog p SECURITY ''Manual ledger purge initiated'' VUndefined)),
              RemoveItem STORAGE_KEY])
      \<and> fst (getLogs (snd (clearLogs p w))) = Inr (VArr []))
   \<and> (\<not> took_effect w (p, SECURITY, ''Manual ledger purge initiated'', VUndefined) \<longrightarrow>
        dispatched (effects (snd (clearLogs p w))) = dispatched (effects w))"
proof (cases rule: log_call_cases [where w = w and p = p and c = SECURITY
      and a = "''Manual ledger purge initiated''" and m = VUndefined])
  case (kept old js)
  have "effects (snd (clearLogs p w)) =
      effects (snd (getLogs w)) @
        [SetItem STORAGE_KEY (JsonText (JArr js)),
         DispatchEvent ''audit-log-updated''
           (entry_obj (newLog p SECURITY ''Manual ledger purge initiated'' VUndefined)),
         RemoveItem STORAGE_KEY]"
    using kept(2)
    by (simp add: clearLogs_world kept(6) removeItem_def emit_def stored_after_def getLogs_world)
  then show ?thesis
    using kept(1) clearLogs_reads [of p w] by blast
next
  case dropped
  then show ?thesis
    by (simp add: clearLogs_world removeItem_def console_error_def emit_def getLogs_effects
        getLogs_world)
      (simp add: dispatched_def)
qed

text \<open>A purge on a new profile that accepts the write, and one that refuses it.\<close>

theorem clearLogs_dispatches_then_removes_witness:
  "(\<exists>t. effects (snd (clearLogs (accepting ''0.9d2kq0x7mna'' 1700000009000) fresh)) =
       effects (snd (getLogs fresh)) @
         [SetItem STORAGE_KEY t,
          DispatchEvent ''audit-log-updated''
            (entry_obj (newLog (accepting ''0.9d2kq0x7mna'' 1700000009000) SECURITY
               ''Manual ledger purge initiated'' VUndefined)),
          RemoveItem STORAGE_KEY])
   \<and> fst (getLogs (snd (clearLogs (accepting ''0.9d2kq0x7mna'' 1700000009000) fresh))) = Inr (VArr [])
   \<and> dispatched (effects (snd (clearLogs (refusing ''0.9d2kq0x7mna'' 1700000009000) fresh))) =
       dispatched (effects fresh)"
proof -
  have h1: "took_effect fresh
      (accepting ''0.9d2kq0x7mna'' 1700000009000, SECURITY, ''Manual ledger purge initiated'', VUndefined)"
    by code_simp
  have h2: "\<not> took_effect fresh
      (refusing ''0.9d2kq0x7mna'' 1700000009000, SECURITY, ''Manual ledger purge initiated'', VUndefined)"
    by code_simp
  show ?thesis
    using clearLogs_dispatches_then_removes [of fresh "accepting ''0.9d2kq0x7mna'' 1700000009000"]
      clearLogs_dispatches_then_removes [of fresh "refusing ''0.9d2kq0x7mna'' 1700000009000"]
      h1 h2
    by blast
qed

text \<open>
  A purge while the storage refuses the write: the key is removed, and no event was
  dispatched before.
\<close>

theorem refused_purge_is_silent:
  "effects (snd (clearLogs (refusing ''0.9d2kq0x7mna'' 1700000009000) fresh)) =
     [ConsoleError ''Failed to save audit log:'', RemoveItem STORAGE_KEY]
   \<and> dispatched (effects (snd (clearLogs (refusing ''0.9d2kq0x7mna'' 1700000009000) fresh))) = []"
  by code_simp

subsection \<open>The view\<close>

text \<open>
  C8. For every list of entries whose metadata can be searched (as all that \<^verbatim>\<open>getLogs\<close>
  has parsed), every filter, query and sort configuration, and whatever text the
  platform writes for numbers, \<^verbatim>\<open>sortedAndFilteredLogs\<close> returns exactly the entries whose
  category matches the filter and, when the query is not empty, whose action text,
  category name, or serialised metadata (when present) contains the query, letter case
  ignored; and the result is sorted by the selected key in the selected direction,
  strings compared in lower case. The name of the category is searched too, so more
  entries are selected than those whose action or metadata contains the query.
\<close>

theorem sortedAndFilteredLogs_selects_and_sorts:
  assumes "list_all (\<lambda>e. searchable (metadata e)) logs"
  shows "\<exists>ys. sortedAndFilteredLogs nt logs flt q cfg = Inr ys
     \<and> mset ys = mset (filter (selected nt flt q) logs)
     \<and> in_order cfg ys"
proof -
  have "list_all (\<lambda>e. filter_callback nt flt q e = Inr (selected nt flt q e)) logs"
    using assms by (induction logs) (simp_all add: filter_callback_searchable)
  then have "Array_filter (filter_callback nt flt q) logs = Inr (filter (selected nt flt q) logs)"
    by (rule Array_filter_total)
  then have "sortedAndFilteredLogs nt logs flt q cfg =
      Inr (Array_sort (compareFn cfg) (filter (selected nt flt q) logs))"
    by (simp add: sortedAndFilteredLogs_def)
  then show ?thesis
    by (simp add: in_order_Array_sort)
qed

text \<open>
  Two entries, one with the metadata \<^verbatim>\<open>{botId: "HyperNode-Prime", amount: 14.50}\<close> of the
  view's own mock actions, the query \<^verbatim>\<open>:14.5\<close>, newest first, on a platform that writes
  14.5 as \<^verbatim>\<open>14.5\<close>: the entry with the amount is the one selected.
\<close>

theorem sortedAndFilteredLogs_witness:
  "(\<exists>ys. sortedAndFilteredLogs (\<lambda>n. if n = Decimal 145 (- 1) then ''14.5'' else [])
            [shard, payout] ALL' '':14.5'' \<lparr>key = Timestamp, direction = Desc\<rparr> = Inr ys
      \<and> mset ys =
          mset (filter (selected (\<lambda>n. if n = Decimal 145 (- 1) then ''14.5'' else [])
                  ALL' '':14.5'') [shard, payout])
      \<and> in_order \<lparr>key = Timestamp, direction = Desc\<rparr> ys)
   \<and> filter (selected (\<lambda>n. if n = Decimal 145 (- 1) then ''14.5'' else []) ALL' '':14.5'')
        [shard, payout] = [payout]"
proof -
  have "list_all (\<lambda>e. searchable (metadata e)) [shard, payout]"
    by code_simp
  then have "\<exists>ys. sortedAndFilteredLogs (\<lambda>n. if n = Decimal 145 (- 1) then ''14.5'' else [])
            [shard, payout] ALL' '':14.5'' \<lparr>key = Timestamp, direction = Desc\<rparr> = Inr ys
      \<and> mset ys =
          mset (filter (selected (\<lambda>n. if n = Decimal 145 (- 1) then ''14.5'' else [])
                  ALL' '':14.5'') [shard, payout])
      \<and> in_order \<lparr>key = Timestamp, direction = Desc\<rparr> ys"
    by (rule sortedAndFilteredLogs_selects_and_sorts)
  moreover have "filter (selected (\<lambda>n. if n = Decimal 145 (- 1) then ''14.5'' else [])
        ALL' '':14.5'') [shard, payout] = [payout]"
    by code_simp
  ultimately show ?thesis
    by blast
qed

text \<open>
  The query \<^verbatim>\<open>sys\<close> on an entry of the category SYSTEM whose action is
  \<^verbatim>\<open>Shard migration initiated\<close> and that has no metadata: the view shows the entry, though
  neither its action text nor its metadata contains the query. No number is written
  for this entry, so the number text plays no part.
\<close>

theorem category_name_is_searched:
  "sortedAndFilteredLogs (\<lambda>n. if n = Decimal 145 (- 1) then ''14.5'' else [])
      [shard] ALL' ''sys'' \<lparr>key = Timestamp, direction = Desc\<rparr> = Inr [shard]
   \<and> \<not> spec_selected (\<lambda>n. if n = Decimal 145 (- 1) then ''14.5'' else []) ALL' ''sys'' shard"
  by code_simp

end
